theory Spec2Isabelle
  imports Complex_Main
begin

section \<open>Objects, errors and outcomes\<close>

text \<open>
  Tensors are Python objects with identity. The object store is a list of tensor values;
  a reference is an index into it. Python never hands out a dangling reference, so every
  reference held by a well-formed client lies inside the store. The tensor values
  themselves (type \<open>'t\<close>) are opaque: their arithmetic belongs to the tensor library.
\<close>

type_synonym ref = nat

datatype error =
    NotImplementedError string
  | AttributeError
  | ShapeMismatch
  | TypeError
  | ValueError
  | RuntimeError

text \<open>
  A call either returns a value or raises; a raise carries the state as it was at the
  moment of the raise, since an exception does not undo earlier mutation.
\<close>

datatype ('a, 's) outcome = Return 'a | Raise error 's

text \<open>\<open>copy.deepcopy(param)\<close>: a new object holding an equal value.\<close>

definition deepcopy :: "'t list \<Rightarrow> ref \<Rightarrow> ref \<times> 't list" where
  "deepcopy st r = (length st, st @ [st ! r])"

text \<open>
  The snapshot loop of both constructors and of \<open>FedAvgClient.download\<close>:
  \<^verbatim>\<open>
  self.prev_parameters = []
  for param in self.model.parameters():
      self.prev_parameters.append(copy.deepcopy(param))
  \<close>
\<close>

fun snapshot_loop :: "ref list \<Rightarrow> ref list \<Rightarrow> 't list \<Rightarrow> ref list \<times> 't list" where
  "snapshot_loop [] prev st = (prev, st)"
| "snapshot_loop (param # rest) prev st =
     (case deepcopy st param of (q, st') \<Rightarrow> snapshot_loop rest (prev @ [q]) st')"

section \<open>The tensor library and the optimizer adapters\<close>

datatype opt_kind = SGD | Adam

text \<open>
  An optimizer adapter keeps references to the live parameter objects it was constructed
  with, the learning rate, and its hyperparameters and buffers (type \<open>'k\<close>, opaque).
\<close>

record ('r, 'k) adapter =
  ad_kind :: opt_kind
  ad_parameters :: "ref list"
  ad_lr :: 'r
  ad_kwargs :: 'k

text \<open>
  The payload of \<open>download\<close> is dynamically typed: a named parameter mapping (a state
  dict, here an association list read with \<open>map_of\<close>) or an ordered sequence of tensors.
\<close>

datatype 't payload = StateDict "(string \<times> 't) list" | TensorSeq "'t list"

text \<open>
  What the code uses but does not define is a parameter of the model:
  tensor subtraction, division of a tensor by the learning rate, the per-parameter update
  rule of an adapter and the evolution of its buffers, and the conversion
  \<open>torch.Tensor(new_params).reshape(params.shape).to(device)\<close>, which can fail.

  Two more parameters stand for what the spec leaves open. \<open>load_other\<close>: what the
  model's \<open>load_state_dict\<close> does with a payload that is not a full state of the model,
  given the parameter names, the parameters' current values and the payload. \<open>step_other\<close>:
  what an adapter's \<open>step\<close> does with a payload that is not a sequence of tensors aligned
  with its parameters. Each tells whether the call raises and which values the call leaves
  in the parameters (a list shorter than the parameter sequence leaves the rest as they
  were); \<open>step_other\<close> also gives the adapter's buffers after a call that returns.
\<close>

record ('t, 'r, 'k) torch =
  t_sub :: "'t \<Rightarrow> 't \<Rightarrow> 't"
  t_div :: "'t \<Rightarrow> 'r \<Rightarrow> 't"
  opt_rule :: "('r, 'k) adapter \<Rightarrow> nat \<Rightarrow> 't \<Rightarrow> 't \<Rightarrow> 't"
  opt_next :: "('r, 'k) adapter \<Rightarrow> 't list \<Rightarrow> 'k"
  reshape_as :: "'t \<Rightarrow> 't \<Rightarrow> 't option"
  load_other :: "string list \<Rightarrow> 't list \<Rightarrow> 't payload \<Rightarrow> bool \<times> 't list"
  step_other :: "('r, 'k) adapter \<Rightarrow> 't list \<Rightarrow> 't payload \<Rightarrow> bool \<times> 't list \<times> 'k"

text \<open>Writing values into parameter objects in place, pair by pair.\<close>

fun write_params :: "(ref \<times> 't) list \<Rightarrow> 't list \<Rightarrow> 't list" where
  "write_params [] st = st"
| "write_params ((param, v) # rest) st = write_params rest (st[param := v])"

section \<open>FedAvgClient\<close>

text \<open>
  The fields of the client object, with the model it owns (\<open>self.model\<close>, flattened into
  the names and the references of its parameters, in the order of \<open>parameters()\<close>) and
  the object store. \<open>optimizer_for_gloal_grad\<close> is \<open>None\<close> while the attribute does not
  exist, \<open>Some None\<close> when it holds Python's \<open>None\<close>.
\<close>

record ('t, 'r, 'k) fedavg =
  store :: "'t list"
  model_names :: "string list"
  model_parameters :: "ref list"
  user_id :: int
  lr :: 'r
  send_gradient :: bool
  server_side_update :: bool
  device :: string
  optimizer_for_gloal_grad :: "('r, 'k) adapter option option"
  prev_parameters :: "ref list"
  initialized :: bool

definition setup_optimizer_for_global_grad ::
  "('t, 'r, 'k) fedavg \<Rightarrow> string \<Rightarrow> 'k \<Rightarrow> (('t, 'r, 'k) fedavg, ('t, 'r, 'k) fedavg) outcome" where
  "setup_optimizer_for_global_grad self optimizer_type kwargs =
     (if optimizer_type = ''sgd'' then
        Return (self\<lparr>optimizer_for_gloal_grad := Some (Some
          \<lparr>ad_kind = SGD, ad_parameters = model_parameters self, ad_lr = lr self,
           ad_kwargs = kwargs\<rparr>)\<rparr>)
      else if optimizer_type = ''adam'' then
        Return (self\<lparr>optimizer_for_gloal_grad := Some (Some
          \<lparr>ad_kind = Adam, ad_parameters = model_parameters self, ad_lr = lr self,
           ad_kwargs = kwargs\<rparr>)\<rparr>)
      else if optimizer_type = ''none'' then
        Return (self\<lparr>optimizer_for_gloal_grad := Some None\<rparr>)
      else
        Raise (NotImplementedError
          (optimizer_type @ '' is not supported. You can specify `sgd`, `adam`, or `none`.''))
          self)"

text \<open>
  \<open>FedAvgClient.__init__\<close>. The caller passes the model (names and references of its
  parameters) and the store they live in. Attributes not assigned yet read as
  \<open>[]\<close>, \<open>False\<close> and \<open>None\<close> in the record under construction.
\<close>

definition FedAvgClient_init ::
  "'t list \<Rightarrow> string list \<Rightarrow> ref list \<Rightarrow> int \<Rightarrow> 'r \<Rightarrow> bool \<Rightarrow> string \<Rightarrow> bool \<Rightarrow> 'k \<Rightarrow> string
   \<Rightarrow> (('t, 'r, 'k) fedavg, ('t, 'r, 'k) fedavg) outcome" where
  "FedAvgClient_init st names params uid lr0 send_grad optimizer_type_for_global_grad
     ssu optimizer_kwargs_for_global_grad dev =
     (let self = \<lparr>store = st, model_names = names, model_parameters = params, user_id = uid,
                  lr = lr0, send_gradient = send_grad, server_side_update = ssu, device = dev,
                  optimizer_for_gloal_grad = None, prev_parameters = [], initialized = False\<rparr>
      in case (if \<not> server_side_update self
               then setup_optimizer_for_global_grad self optimizer_type_for_global_grad
                      optimizer_kwargs_for_global_grad
               else Return self) of
           Raise e s \<Rightarrow> Raise e s
         | Return self1 \<Rightarrow>
             (case snapshot_loop (model_parameters self1) [] (store self1) of
                (prev, st') \<Rightarrow>
                  Return (self1\<lparr>store := st', prev_parameters := prev, initialized := False\<rparr>)))"

text \<open>
  Modelled from the spec: \<open>state_dict()\<close> of the model (the tensor library's module
  class): the named mapping of the parameters, each name with its current value.
  \<open>upload_parameters\<close> returns it.
\<close>

definition state_dict :: "('t, 'r, 'k) fedavg \<Rightarrow> (string \<times> 't) list" where
  "state_dict self = zip (model_names self) (map (\<lambda>r. store self ! r) (model_parameters self))"

definition upload_parameters :: "('t, 'r, 'k) fedavg \<Rightarrow> (string \<times> 't) list" where
  "upload_parameters self = state_dict self"

text \<open>
  \<open>upload_gradients\<close>:
  \<^verbatim>\<open>
  gradients = []
  for param, prev_param in zip(self.model.parameters(), self.prev_parameters):
      gradients.append((prev_param - param) / self.lr)
  return gradients
  \<close>
  Each \<open>(prev_param - param) / self.lr\<close> is a new tensor object. The loop state is the
  list \<open>gradients\<close> (references to the new tensors) and the store; the method returns
  the list, and the state it leaves is the client with the store as the loop left it.
\<close>

fun gradients_loop ::
  "('t, 'r, 'k) torch \<Rightarrow> 'r \<Rightarrow> (ref \<times> ref) list \<Rightarrow> ref list \<times> 't list \<Rightarrow> ref list \<times> 't list" where
  "gradients_loop T lr0 [] (gradients, st) = (gradients, st)"
| "gradients_loop T lr0 ((param, prev_param) # rest) (gradients, st) =
     gradients_loop T lr0 rest
       (gradients @ [length st],
        st @ [t_div T (t_sub T (st ! prev_param) (st ! param)) lr0])"

definition upload_gradients ::
  "('t, 'r, 'k) torch \<Rightarrow> ('t, 'r, 'k) fedavg \<Rightarrow> ref list \<times> ('t, 'r, 'k) fedavg" where
  "upload_gradients T self =
     (case gradients_loop T (lr self) (zip (model_parameters self) (prev_parameters self))
             ([], store self) of
        (gradients, st') \<Rightarrow> (gradients, self\<lparr>store := st'\<rparr>))"

text \<open>
  \<open>upload\<close>: what goes to the aggregator is the tensors' values, or the state dict.
\<close>

definition upload ::
  "('t, 'r, 'k) torch \<Rightarrow> ('t, 'r, 'k) fedavg \<Rightarrow> 't payload \<times> ('t, 'r, 'k) fedavg" where
  "upload T self =
     (if send_gradient self
      then (case upload_gradients T self of
              (gradients, self') \<Rightarrow> (TensorSeq (map ((!) (store self')) gradients), self'))
      else (StateDict (upload_parameters self), self))"

text \<open>
  \<open>revert\<close>:
  \<^verbatim>\<open>
  for param, prev_param in zip(self.model.parameters(), self.prev_parameters):
      if param is not None:
          param = prev_param
  \<close>
  The assignment binds the loop's local name \<open>param\<close> to the object \<open>prev_param\<close>; it
  writes to no object. The loop state is the store together with the binding of the local
  name (\<open>parameters()\<close> never yields \<open>None\<close>, so the test always passes).
\<close>

fun revert_loop :: "(ref \<times> ref) list \<Rightarrow> 't list \<times> ref option \<Rightarrow> 't list \<times> ref option" where
  "revert_loop [] (st, local_param) = (st, local_param)"
| "revert_loop ((param, prev_param) # rest) (st, local_param) =
     revert_loop rest (st, Some prev_param)"

definition revert :: "('t, 'r, 'k) fedavg \<Rightarrow> ('t, 'r, 'k) fedavg" where
  "revert self =
     self\<lparr>store := fst (revert_loop (zip (model_parameters self) (prev_parameters self))
                          (store self, None))\<rparr>"

text \<open>
  Modelled from the spec: \<open>load_state_dict\<close> of the model (the tensor library's module
  class, not part of this repository's sources). Given a full state of the model (a
  mapping with one entry per parameter and an entry for every parameter name) it
  overwrites every parameter with the value under its name. The spec gives it no contract
  for any other payload: there the outcome is the parameter \<open>load_other\<close>, and an error,
  if one is raised, goes by the spec's name for a malformed payload, \<open>ShapeMismatch\<close>.
\<close>

fun load_loop :: "(string \<times> 't) list \<Rightarrow> (string \<times> ref) list \<Rightarrow> 't list \<Rightarrow> 't list option" where
  "load_loop sd [] st = Some st"
| "load_loop sd ((name, param) # rest) st =
     (case map_of sd name of
        None \<Rightarrow> None
      | Some v \<Rightarrow> load_loop sd rest (st[param := v]))"

definition load_full ::
  "('t, 'r, 'k) fedavg \<Rightarrow> 't payload \<Rightarrow> 't list option" where
  "load_full self gs =
     (case gs of
        TensorSeq _ \<Rightarrow> None
      | StateDict sd \<Rightarrow>
          if length sd \<noteq> length (model_parameters self) then None
          else load_loop sd (zip (model_names self) (model_parameters self)) (store self))"

definition load_state_dict ::
  "('t, 'r, 'k) torch \<Rightarrow> ('t, 'r, 'k) fedavg \<Rightarrow> 't payload
   \<Rightarrow> (('t, 'r, 'k) fedavg, ('t, 'r, 'k) fedavg) outcome" where
  "load_state_dict T self gs =
     (case load_full self gs of
        Some st' \<Rightarrow> Return (self\<lparr>store := st'\<rparr>)
      | None \<Rightarrow>
          (case load_other T (model_names self)
                  (map ((!) (store self)) (model_parameters self)) gs of
             (raises, vals) \<Rightarrow>
               (let self' = self\<lparr>store := write_params (zip (model_parameters self) vals)
                                              (store self)\<rparr>
                in if raises then Raise ShapeMismatch self' else Return self')))"

text \<open>
  Modelled from the spec: \<open>step(update)\<close> of the SGD-style and Adam-style optimizer
  adapters (\<open>aijack.collaborative.optimizer\<close>, not among the sources). The update is an
  ordered sequence of tensors aligned with the adapter's parameter sequence; each
  parameter is mutated in place by the adapter's rule and the adapter's buffers advance.
  The spec gives it no contract for any other payload: there the outcome is the parameter
  \<open>step_other\<close>, and an error, if one is raised, goes by the spec's name
  \<open>ShapeMismatch\<close>.
\<close>

fun step_loop ::
  "('t, 'r, 'k) torch \<Rightarrow> ('r, 'k) adapter \<Rightarrow> nat \<Rightarrow> (ref \<times> 't) list \<Rightarrow> 't list \<Rightarrow> 't list" where
  "step_loop T a i [] st = st"
| "step_loop T a i ((param, grad) # rest) st =
     step_loop T a (Suc i) rest (st[param := opt_rule T a i (st ! param) grad])"

definition step_aligned :: "('r, 'k) adapter \<Rightarrow> 't payload \<Rightarrow> 't list option" where
  "step_aligned a gs =
     (case gs of
        StateDict _ \<Rightarrow> None
      | TensorSeq grads \<Rightarrow>
          if length grads \<noteq> length (ad_parameters a) then None else Some grads)"

definition step ::
  "('t, 'r, 'k) torch \<Rightarrow> ('r, 'k) adapter \<Rightarrow> ('t, 'r, 'k) fedavg \<Rightarrow> 't payload
   \<Rightarrow> (('t, 'r, 'k) fedavg, ('t, 'r, 'k) fedavg) outcome" where
  "step T a self gs =
     (case step_aligned a gs of
        Some grads \<Rightarrow>
          Return (self\<lparr>store := step_loop T a 0 (zip (ad_parameters a) grads) (store self),
                       optimizer_for_gloal_grad :=
                         Some (Some (a\<lparr>ad_kwargs := opt_next T a grads\<rparr>))\<rparr>)
      | None \<Rightarrow>
          (case step_other T a (map ((!) (store self)) (ad_parameters a)) gs of
             (raises, vals, k) \<Rightarrow>
               (let st' = write_params (zip (ad_parameters a) vals) (store self)
                in if raises then Raise ShapeMismatch (self\<lparr>store := st'\<rparr>)
                   else Return (self\<lparr>store := st',
                                     optimizer_for_gloal_grad :=
                                       Some (Some (a\<lparr>ad_kwargs := k\<rparr>))\<rparr>))))"

text \<open>
  \<open>download\<close>:
  \<^verbatim>\<open>
  if self.server_side_update or (not self.initialized):
      self.model.load_state_dict(new_global_model)
  else:
      self.revert()
      self.optimizer_for_gloal_grad.step(new_global_model)
  if not self.initialized:
      self.initialized = True
  self.prev_parameters = []
  for param in self.model.parameters():
      self.prev_parameters.append(copy.deepcopy(param))
  \<close>
  Reading \<open>.step\<close> on \<open>None\<close> (or on a missing attribute) raises \<open>AttributeError\<close>.
\<close>

definition download ::
  "('t, 'r, 'k) torch \<Rightarrow> ('t, 'r, 'k) fedavg \<Rightarrow> 't payload
   \<Rightarrow> (('t, 'r, 'k) fedavg, ('t, 'r, 'k) fedavg) outcome" where
  "download T self new_global_model =
     (case (if server_side_update self \<or> \<not> initialized self
            then load_state_dict T self new_global_model
            else (let self1 = revert self in
                  case optimizer_for_gloal_grad self1 of
                    Some (Some a) \<Rightarrow> step T a self1 new_global_model
                  | _ \<Rightarrow> Raise AttributeError self1)) of
        Raise e s \<Rightarrow> Raise e s
      | Return self2 \<Rightarrow>
          (let self3 = (if \<not> initialized self2 then self2\<lparr>initialized := True\<rparr> else self2)
           in case snapshot_loop (model_parameters self3) [] (store self3) of
                (prev, st') \<Rightarrow> Return (self3\<lparr>store := st', prev_parameters := prev\<rparr>)))"

section \<open>MPIFedAVGClient\<close>

text \<open>
  Modelled from the spec: the channel (\<open>comm\<close>) of the message-passing library, as the
  client uses it: \<open>send\<close> appends a tagged message for a destination; \<open>recv(tag)\<close> hands over
  the oldest waiting message with that tag and blocks while there is none. The tags stand
  for the constants \<open>GRADIENTS_TAG\<close> and \<open>PARAMETERS_TAG\<close> of \<open>core.utils\<close>.
\<close>

datatype tag = GRADIENTS_TAG | PARAMETERS_TAG

record 't comm =
  inbox :: "(tag \<times> 't list) list"
  outbox :: "('t list \<times> nat \<times> tag) list"

definition comm_send :: "'t comm \<Rightarrow> 't list \<Rightarrow> nat \<Rightarrow> tag \<Rightarrow> 't comm" where
  "comm_send c msg dest tg = c\<lparr>outbox := outbox c @ [(msg, dest, tg)]\<rparr>"

fun take_first :: "tag \<Rightarrow> (tag \<times> 'a) list \<Rightarrow> ('a \<times> (tag \<times> 'a) list) option" where
  "take_first tg [] = None"
| "take_first tg ((tg', m) # rest) =
     (if tg' = tg then Some (m, rest)
      else (case take_first tg rest of
              None \<Rightarrow> None
            | Some (x, rest') \<Rightarrow> Some (x, (tg', m) # rest')))"

text \<open>\<open>None\<close>: the call never returns.\<close>

definition comm_recv :: "'t comm \<Rightarrow> tag \<Rightarrow> ('t list \<times> 't comm) option" where
  "comm_recv c tg =
     (case take_first tg (inbox c) of
        None \<Rightarrow> None
      | Some (msg, rest) \<Rightarrow> Some (msg, c\<lparr>inbox := rest\<rparr>))"

text \<open>\<open>gradients\<close> is \<open>None\<close> until the first upload creates the attribute.\<close>

record ('t, 'r) mpi_client =
  mpi_store :: "'t list"
  mpi_comm :: "'t comm"
  mpi_model_names :: "string list"
  mpi_model_parameters :: "ref list"
  mpi_user_id :: int
  mpi_lr :: 'r
  mpi_device :: string
  mpi_prev_parameters :: "ref list"
  mpi_gradients :: "ref list option"

definition MPIFedAVGClient_init ::
  "'t comm \<Rightarrow> 't list \<Rightarrow> string list \<Rightarrow> ref list \<Rightarrow> int \<Rightarrow> 'r \<Rightarrow> string \<Rightarrow> ('t, 'r) mpi_client" where
  "MPIFedAVGClient_init c st names params uid lr0 dev =
     (case snapshot_loop params [] st of
        (prev, st') \<Rightarrow>
          \<lparr>mpi_store = st', mpi_comm = c, mpi_model_names = names,
           mpi_model_parameters = params, mpi_user_id = uid, mpi_lr = lr0, mpi_device = dev,
           mpi_prev_parameters = prev, mpi_gradients = None\<rparr>)"

text \<open>
  \<open>upload_gradient\<close>:
  \<^verbatim>\<open>
  self.gradients = []
  for param, prev_param in zip(self.model.parameters(), self.prev_parameters):
      self.gradients.append((prev_param - param) / self.lr)
  self.comm.send(self.gradients, dest=destination_id, tag=GRADIENTS_TAG)
  \<close>
  The method has no return statement, so it returns Python's \<open>None\<close>: the first
  component of the result is what the call returns (\<open>None\<close> for \<open>None\<close>, \<open>Some\<close> for
  a list of tensors), the second the client it leaves. The message carries the values
  of the new tensors. \<open>upload\<close> calls it with the default destination and returns
  nothing either.
\<close>

definition upload_gradient ::
  "('t, 'r, 'k) torch \<Rightarrow> ('t, 'r) mpi_client \<Rightarrow> nat \<Rightarrow> ref list option \<times> ('t, 'r) mpi_client" where
  "upload_gradient T self destination_id =
     (case gradients_loop T (mpi_lr self)
             (zip (mpi_model_parameters self) (mpi_prev_parameters self))
             ([], mpi_store self) of
        (gradients, st') \<Rightarrow>
          (None,
           self\<lparr>mpi_store := st', mpi_gradients := Some gradients,
                mpi_comm := comm_send (mpi_comm self) (map ((!) st') gradients)
                              destination_id GRADIENTS_TAG\<rparr>))"

definition mpi_upload ::
  "('t, 'r, 'k) torch \<Rightarrow> ('t, 'r) mpi_client \<Rightarrow> ref list option \<times> ('t, 'r) mpi_client" where
  "mpi_upload T self = (None, snd (upload_gradient T self 0))"

text \<open>
  \<open>MPIFedAVGClient.download\<close>:
  \<^verbatim>\<open>
  new_parameters = self.comm.recv(tag=PARAMETERS_TAG)
  for params, new_params in zip(self.model.parameters(), new_parameters):
      params.data = torch.Tensor(new_params).reshape(params.shape).to(self.device)
  \<close>
  A conversion that fails raises in the middle of the loop, after the earlier parameters
  have been overwritten.
\<close>

fun assign_loop ::
  "('t, 'r, 'k) torch \<Rightarrow> (ref \<times> 't) list \<Rightarrow> 't list \<Rightarrow> ('t list, 't list) outcome" where
  "assign_loop T [] st = Return st"
| "assign_loop T ((params, new_params) # rest) st =
     (case reshape_as T new_params (st ! params) of
        None \<Rightarrow> Raise RuntimeError st
      | Some v \<Rightarrow> assign_loop T rest (st[params := v]))"

definition mpi_download ::
  "('t, 'r, 'k) torch \<Rightarrow> ('t, 'r) mpi_client
   \<Rightarrow> (('t, 'r) mpi_client, ('t, 'r) mpi_client) outcome option" where
  "mpi_download T self =
     (case comm_recv (mpi_comm self) PARAMETERS_TAG of
        None \<Rightarrow> None
      | Some (new_parameters, c') \<Rightarrow>
          (let self1 = self\<lparr>mpi_comm := c'\<rparr> in
           case assign_loop T (zip (mpi_model_parameters self1) new_parameters) (mpi_store self1) of
             Raise e st \<Rightarrow> Some (Raise e (self1\<lparr>mpi_store := st\<rparr>))
           | Return st \<Rightarrow> Some (Return (self1\<lparr>mpi_store := st\<rparr>))))"

section \<open>PaillierTensor\<close>

subsection \<open>Arrays of the numeric library\<close>

text \<open>
  An array has a shape and its elements in row-major order. The elements (type \<open>'e\<close>)
  are Python objects: ciphertexts or plaintext numbers. Their \<open>+\<close> and \<open>*\<close>, the
  integer \<open>-1\<close>, the conversion of a Python list to an array, the decryption primitive
  of a secret key and the number \<open>0\<close> are parameters of the model.
\<close>

record 'e ndarray =
  shape :: "nat list"
  data :: "'e list"

record ('e, 'l, 'sk) numpy =
  el_add :: "'e \<Rightarrow> 'e \<Rightarrow> 'e"
  el_mul :: "'e \<Rightarrow> 'e \<Rightarrow> 'e"
  minus_one :: 'e
  np_array :: "'l \<Rightarrow> 'e ndarray"
  decrypt2float :: "'sk \<Rightarrow> 'e \<Rightarrow> 'e"
  zero :: 'e

text \<open>
  Broadcasting: shapes are aligned at their last dimension; two dimensions are compatible
  when they are equal or one of them is 1; a missing leading dimension counts as 1.
\<close>

fun broadcast_rev :: "nat list \<Rightarrow> nat list \<Rightarrow> nat list option" where
  "broadcast_rev [] ys = Some ys"
| "broadcast_rev (x # xs) [] = Some (x # xs)"
| "broadcast_rev (x # xs) (y # ys) =
     (if x = y \<or> y = 1 then map_option ((#) x) (broadcast_rev xs ys)
      else if x = 1 then map_option ((#) y) (broadcast_rev xs ys)
      else None)"

definition broadcast_shapes :: "nat list \<Rightarrow> nat list \<Rightarrow> nat list option" where
  "broadcast_shapes s t = map_option rev (broadcast_rev (rev s) (rev t))"

fun unravel :: "nat list \<Rightarrow> nat \<Rightarrow> nat list" where
  "unravel [] k = []"
| "unravel (d # ds) k = (k div prod_list ds) mod d # unravel ds (k mod prod_list ds)"

fun ravel :: "nat list \<Rightarrow> nat list \<Rightarrow> nat" where
  "ravel (d # ds) (i # is) = i * prod_list ds + ravel ds is"
| "ravel _ _ = 0"

text \<open>
  The position in an array of shape \<open>t\<close> that is read for position \<open>k\<close> of the
  broadcast result of shape \<open>s\<close>: the leading dimensions that \<open>t\<close> lacks are dropped
  and a dimension of size 1 is always read at index 0.
\<close>

definition broadcast_index :: "nat list \<Rightarrow> nat list \<Rightarrow> nat \<Rightarrow> nat" where
  "broadcast_index t s k =
     ravel t (map (\<lambda>(d, i). if d = 1 then 0 else i)
                (zip t (drop (length s - length t) (unravel s k))))"

definition broadcast_to :: "'e ndarray \<Rightarrow> nat list \<Rightarrow> 'e list" where
  "broadcast_to a s = map (\<lambda>k. data a ! broadcast_index (shape a) s k) [0..<prod_list s]"

text \<open>\<open>a op b\<close> on two arrays; \<open>None\<close> is the library's own shape-mismatch error.\<close>

definition np_binop :: "('e \<Rightarrow> 'e \<Rightarrow> 'e) \<Rightarrow> 'e ndarray \<Rightarrow> 'e ndarray \<Rightarrow> 'e ndarray option" where
  "np_binop f a b =
     (case broadcast_shapes (shape a) (shape b) of
        None \<Rightarrow> None
      | Some s \<Rightarrow> Some \<lparr>shape = s, data = map (\<lambda>(x, y). f x y)
                                            (zip (broadcast_to a s) (broadcast_to b s))\<rparr>)"

text \<open>\<open>a op x\<close> and \<open>x op a\<close> for a scalar \<open>x\<close>.\<close>

definition np_scalar_right :: "('e \<Rightarrow> 'e \<Rightarrow> 'e) \<Rightarrow> 'e ndarray \<Rightarrow> 'e \<Rightarrow> 'e ndarray" where
  "np_scalar_right f a x = \<lparr>shape = shape a, data = map (\<lambda>e. f e x) (data a)\<rparr>"

definition np_scalar_left :: "('e \<Rightarrow> 'e \<Rightarrow> 'e) \<Rightarrow> 'e \<Rightarrow> 'e ndarray \<Rightarrow> 'e ndarray" where
  "np_scalar_left f x a = \<lparr>shape = shape a, data = map (\<lambda>e. f x e) (data a)\<rparr>"

subsection \<open>The wrapper\<close>

text \<open>
  Two kinds of objects live in the store of this component: arrays, and
  \<open>PaillierTensor\<close> instances, each holding in \<open>_paillier_np_array\<close> a reference to an
  array. A plaintext tensor is known through the array its \<open>numpy()\<close> returns.
\<close>

record 'e pstore =
  arrays :: "'e ndarray list"
  instances :: "ref list"

text \<open>What a Python caller can pass to the constructor.\<close>

datatype 'l init_arg = ListArg 'l | NdarrayArg ref | ObjectArg string

text \<open>
  What a Python caller can pass as the second operand, by its type: \<open>int\<close>,
  \<open>float\<close>, \<open>torch.Tensor\<close>, \<open>PaillierTensor\<close>, or any other type (with its name).
\<close>

datatype 'e operand =
    PyInt 'e
  | PyFloat 'e
  | TorchTensor ref
  | PaillierT ref
  | Unsupported string

datatype pytype = T_int | T_float | T_Tensor | T_PaillierTensor | T_other string

fun type_of :: "'e operand \<Rightarrow> pytype" where
  "type_of (PyInt _) = T_int"
| "type_of (PyFloat _) = T_float"
| "type_of (TorchTensor _) = T_Tensor"
| "type_of (PaillierT _) = T_PaillierTensor"
| "type_of (Unsupported n) = T_other n"

text \<open>
  \<open>__init__\<close>: a list is converted to a new array, an array is kept by reference, anything
  else raises \<open>TypeError\<close>. The new instance is the next object of the store.
\<close>

definition PaillierTensor_init ::
  "('e, 'l, 'sk) numpy \<Rightarrow> 'e pstore \<Rightarrow> 'l init_arg \<Rightarrow> (ref \<times> 'e pstore, 'e pstore) outcome" where
  "PaillierTensor_init N w paillier_array =
     (case paillier_array of
        ListArg l \<Rightarrow>
          Return (length (instances w),
                  w\<lparr>arrays := arrays w @ [np_array N l],
                    instances := instances w @ [length (arrays w)]\<rparr>)
      | NdarrayArg r \<Rightarrow>
          Return (length (instances w), w\<lparr>instances := instances w @ [r]\<rparr>)
      | ObjectArg n \<Rightarrow> Raise TypeError w)"

definition paillier_repr :: "'e pstore \<Rightarrow> ref \<Rightarrow> string" where
  "paillier_repr w self = ''PaillierTensor''"

text \<open>\<open>numpy()\<close> returns the underlying array itself.\<close>

definition numpy :: "'e pstore \<Rightarrow> ref \<Rightarrow> ref" where
  "numpy w self = instances w ! self"

definition np_of :: "'e pstore \<Rightarrow> ref \<Rightarrow> 'e ndarray" where
  "np_of w self = arrays w ! numpy w self"

text \<open>\<open>decypt(sk)\<close> and \<open>tensor(sk=None)\<close> return a plaintext tensor, given by its value.\<close>

definition decypt :: "('e, 'l, 'sk) numpy \<Rightarrow> 'e pstore \<Rightarrow> ref \<Rightarrow> 'sk \<Rightarrow> 'e ndarray" where
  "decypt N w self sk =
     \<lparr>shape = shape (np_of w self), data = map (decrypt2float N sk) (data (np_of w self))\<rparr>"

definition tensor :: "('e, 'l, 'sk) numpy \<Rightarrow> 'e pstore \<Rightarrow> ref \<Rightarrow> 'sk option \<Rightarrow> 'e ndarray" where
  "tensor N w self sk =
     (case sk of
        Some k \<Rightarrow> decypt N w self k
      | None \<Rightarrow> \<lparr>shape = shape (np_of w self),
                 data = replicate (prod_list (shape (np_of w self))) (zero N)\<rparr>)"

text \<open>
  The result of an array expression is a new array object; on arrays without dimensions
  the numeric library hands back the element itself instead of an array, which the
  constructor then rejects.
\<close>

definition np_result :: "'e pstore \<Rightarrow> 'e ndarray \<Rightarrow> 'l init_arg \<times> 'e pstore" where
  "np_result w a =
     (if shape a = [] then (ObjectArg ''object'', w)
      else (NdarrayArg (length (arrays w)), w\<lparr>arrays := arrays w @ [a]\<rparr>))"

definition wrap ::
  "('e, 'l, 'sk) numpy \<Rightarrow> 'e pstore \<Rightarrow> 'e ndarray option \<Rightarrow> (ref \<times> 'e pstore, 'e pstore) outcome" where
  "wrap N w r =
     (case r of
        None \<Rightarrow> Raise ValueError w
      | Some a \<Rightarrow> (case np_result w a of (arg, w') \<Rightarrow> PaillierTensor_init N w' arg))"

text \<open>
  \<open>add\<close>, \<open>sub\<close>, \<open>mul\<close>:
  \<^verbatim>\<open>
  if type(other) in [int, float]:
      return PaillierTensor(input._paillier_np_array + other)
  elif type(other) in [torch.Tensor, PaillierTensor]:
      return PaillierTensor(input._paillier_np_array + other.numpy())
  else:
      raise NotImplementedError(f"{type(other)} is not supported.")
  \<close>
  with \<open>+ (-1 * other)\<close>, \<open>+ (-1 * other.numpy())\<close> in \<open>sub\<close> and \<open>*\<close> in \<open>mul\<close>.
\<close>

definition add ::
  "('e, 'l, 'sk) numpy \<Rightarrow> 'e pstore \<Rightarrow> ref \<Rightarrow> 'e operand \<Rightarrow> (ref \<times> 'e pstore, 'e pstore) outcome" where
  "add N w input other =
     (case other of
        PyInt x \<Rightarrow> wrap N w (Some (np_scalar_right (el_add N) (np_of w input) x))
      | PyFloat x \<Rightarrow> wrap N w (Some (np_scalar_right (el_add N) (np_of w input) x))
      | TorchTensor t \<Rightarrow> wrap N w (np_binop (el_add N) (np_of w input) (arrays w ! t))
      | PaillierT p \<Rightarrow> wrap N w (np_binop (el_add N) (np_of w input) (np_of w p))
      | Unsupported n \<Rightarrow> Raise (NotImplementedError (n @ '' is not supported.'')) w)"

definition sub ::
  "('e, 'l, 'sk) numpy \<Rightarrow> 'e pstore \<Rightarrow> ref \<Rightarrow> 'e operand \<Rightarrow> (ref \<times> 'e pstore, 'e pstore) outcome" where
  "sub N w input other =
     (case other of
        PyInt x \<Rightarrow>
          wrap N w (Some (np_scalar_right (el_add N) (np_of w input) (el_mul N (minus_one N) x)))
      | PyFloat x \<Rightarrow>
          wrap N w (Some (np_scalar_right (el_add N) (np_of w input) (el_mul N (minus_one N) x)))
      | TorchTensor t \<Rightarrow>
          wrap N w (np_binop (el_add N) (np_of w input)
                      (np_scalar_left (el_mul N) (minus_one N) (arrays w ! t)))
      | PaillierT p \<Rightarrow>
          wrap N w (np_binop (el_add N) (np_of w input)
                      (np_scalar_left (el_mul N) (minus_one N) (np_of w p)))
      | Unsupported n \<Rightarrow> Raise (NotImplementedError (n @ '' is not supported.'')) w)"

definition mul ::
  "('e, 'l, 'sk) numpy \<Rightarrow> 'e pstore \<Rightarrow> ref \<Rightarrow> 'e operand \<Rightarrow> (ref \<times> 'e pstore, 'e pstore) outcome" where
  "mul N w input other =
     (case other of
        PyInt x \<Rightarrow> wrap N w (Some (np_scalar_right (el_mul N) (np_of w input) x))
      | PyFloat x \<Rightarrow> wrap N w (Some (np_scalar_right (el_mul N) (np_of w input) x))
      | TorchTensor t \<Rightarrow> wrap N w (np_binop (el_mul N) (np_of w input) (arrays w ! t))
      | PaillierT p \<Rightarrow> wrap N w (np_binop (el_mul N) (np_of w input) (np_of w p))
      | Unsupported n \<Rightarrow> Raise (NotImplementedError (n @ '' is not supported.'')) w)"

text \<open>
  The registration table \<open>HANDLED_FUNCTIONS\<close> and \<open>__torch_function__\<close>:
  \<^verbatim>\<open>
  if func not in HANDLED_FUNCTIONS or not all(
      issubclass(t, (torch.Tensor, PaillierTensor)) for t in types):
      return NotImplemented
  return HANDLED_FUNCTIONS[func](*args, **kwargs)
  \<close>
  \<open>None\<close> is \<open>NotImplemented\<close>.
\<close>

datatype torch_func = torch_add | torch_sub | torch_mul | torch_other string

fun HANDLED_FUNCTIONS ::
  "torch_func \<Rightarrow> (('e, 'l, 'sk) numpy \<Rightarrow> 'e pstore \<Rightarrow> ref \<Rightarrow> 'e operand
                  \<Rightarrow> (ref \<times> 'e pstore, 'e pstore) outcome) option" where
  "HANDLED_FUNCTIONS torch_add = Some add"
| "HANDLED_FUNCTIONS torch_sub = Some sub"
| "HANDLED_FUNCTIONS torch_mul = Some mul"
| "HANDLED_FUNCTIONS (torch_other n) = None"

fun issubclass_tensor :: "pytype \<Rightarrow> bool" where
  "issubclass_tensor T_Tensor = True"
| "issubclass_tensor T_PaillierTensor = True"
| "issubclass_tensor _ = False"

definition torch_function ::
  "('e, 'l, 'sk) numpy \<Rightarrow> 'e pstore \<Rightarrow> torch_func \<Rightarrow> pytype list \<Rightarrow> ref \<Rightarrow> 'e operand
   \<Rightarrow> (ref \<times> 'e pstore, 'e pstore) outcome option" where
  "torch_function N w func types input other =
     (case HANDLED_FUNCTIONS func of
        None \<Rightarrow> None
      | Some h \<Rightarrow> if \<not> list_all issubclass_tensor types then None else Some (h N w input other))"

text \<open>
  \<open>torch.add(self, other)\<close> and its siblings, called on a wrapper: the tensor library
  collects the types of the arguments that override \<open>__torch_function__\<close> (the wrapper,
  and the second operand when it is a tensor or a wrapper) and calls the override; a
  \<open>NotImplemented\<close> answer becomes a \<open>TypeError\<close>.
\<close>

definition overloaded_types :: "'e operand \<Rightarrow> pytype list" where
  "overloaded_types other =
     (case other of
        TorchTensor _ \<Rightarrow> [T_PaillierTensor, T_Tensor]
      | _ \<Rightarrow> [T_PaillierTensor])"

definition torch_call ::
  "('e, 'l, 'sk) numpy \<Rightarrow> 'e pstore \<Rightarrow> torch_func \<Rightarrow> ref \<Rightarrow> 'e operand
   \<Rightarrow> (ref \<times> 'e pstore, 'e pstore) outcome" where
  "torch_call N w func self other =
     (case torch_function N w func (overloaded_types other) self other of
        None \<Rightarrow> Raise TypeError w
      | Some r \<Rightarrow> r)"

definition dunder_add ::
  "('e, 'l, 'sk) numpy \<Rightarrow> 'e pstore \<Rightarrow> ref \<Rightarrow> 'e operand \<Rightarrow> (ref \<times> 'e pstore, 'e pstore) outcome" where
  "dunder_add N w self other = torch_call N w torch_add self other"

definition dunder_sub ::
  "('e, 'l, 'sk) numpy \<Rightarrow> 'e pstore \<Rightarrow> ref \<Rightarrow> 'e operand \<Rightarrow> (ref \<times> 'e pstore, 'e pstore) outcome" where
  "dunder_sub N w self other = torch_call N w torch_sub self other"

definition dunder_mul ::
  "('e, 'l, 'sk) numpy \<Rightarrow> 'e pstore \<Rightarrow> ref \<Rightarrow> 'e operand \<Rightarrow> (ref \<times> 'e pstore, 'e pstore) outcome" where
  "dunder_mul N w self other = torch_call N w torch_mul self other"

subsection \<open>Stores, results and operands of the wrapper\<close>

text \<open>
  In a well-formed store every instance holds an array that exists, and the references an
  operation is given exist.
\<close>

definition wf_pstore :: "'e pstore \<Rightarrow> bool" where
  "wf_pstore w \<longleftrightarrow> list_all (\<lambda>r. r < length (arrays w)) (instances w)"

fun wf_operand :: "'e pstore \<Rightarrow> 'e operand \<Rightarrow> bool" where
  "wf_operand w (TorchTensor t) \<longleftrightarrow> t < length (arrays w)"
| "wf_operand w (PaillierT p) \<longleftrightarrow> p < length (instances w)"
| "wf_operand w _ \<longleftrightarrow> True"

text \<open>What a call produced: the array of the instance it returned, or the error it raised.\<close>

fun result_array :: "(ref \<times> 'e pstore, 'e pstore) outcome \<Rightarrow> error + 'e ndarray" where
  "result_array (Return (p, w)) = Inr (np_of w p)"
| "result_array (Raise e w) = Inl e"

text \<open>
  The shape an operand brings into an array expression: a scalar has no dimensions.
\<close>

fun operand_shape :: "'e pstore \<Rightarrow> 'e operand \<Rightarrow> nat list" where
  "operand_shape w (PyInt x) = []"
| "operand_shape w (PyFloat x) = []"
| "operand_shape w (TorchTensor t) = shape (arrays w ! t)"
| "operand_shape w (PaillierT p) = shape (np_of w p)"
| "operand_shape w (Unsupported n) = []"

text \<open>
  The spec's ``operand scaled by \<open>-1\<close>'', as an operand of the same kind: the number
  \<open>-1 * x\<close>, a new plaintext tensor with the elements \<open>-1 * e\<close>, a new wrapper around
  the array of the elements \<open>-1 * e\<close>.
\<close>

definition scaled_by_minus_one ::
  "('e, 'l, 'sk) numpy \<Rightarrow> 'e pstore \<Rightarrow> 'e operand \<Rightarrow> 'e operand \<times> 'e pstore" where
  "scaled_by_minus_one N w b =
     (case b of
        PyInt x \<Rightarrow> (PyInt (el_mul N (minus_one N) x), w)
      | PyFloat x \<Rightarrow> (PyFloat (el_mul N (minus_one N) x), w)
      | TorchTensor t \<Rightarrow>
          (TorchTensor (length (arrays w)),
           w\<lparr>arrays := arrays w @ [np_scalar_left (el_mul N) (minus_one N) (arrays w ! t)]\<rparr>)
      | PaillierT p \<Rightarrow>
          (PaillierT (length (instances w)),
           w\<lparr>arrays := arrays w @ [np_scalar_left (el_mul N) (minus_one N) (np_of w p)],
             instances := instances w @ [length (arrays w)]\<rparr>)
      | Unsupported n \<Rightarrow> (Unsupported n, w))"

section \<open>Well-formed models and payloads\<close>

text \<open>
  What the tensor library guarantees of a model: one name per parameter, distinct names,
  distinct parameter objects, all of them in the store.
\<close>

definition wf_model :: "'t list \<Rightarrow> string list \<Rightarrow> ref list \<Rightarrow> bool" where
  "wf_model st names params \<longleftrightarrow>
     length names = length params \<and> distinct names \<and> distinct params
     \<and> list_all (\<lambda>r. r < length st) params"


section \<open>Sequences of calls\<close>

text \<open>
  The calls a client receives over its life, and in between the trainer writing a
  parameter object in place. A call that raises leaves the state it had reached.
\<close>

datatype 't call =
    Upload
  | Upload_parameters
  | Upload_gradients
  | Revert
  | Download "'t payload"
  | Train ref 't

fun state_after :: "('s, 's) outcome \<Rightarrow> 's" where
  "state_after (Return s) = s"
| "state_after (Raise e s) = s"

fun exec :: "('t, 'r, 'k) torch \<Rightarrow> ('t, 'r, 'k) fedavg \<Rightarrow> 't call \<Rightarrow> ('t, 'r, 'k) fedavg" where
  "exec T c Upload = snd (upload T c)"
| "exec T c Upload_parameters = c"
| "exec T c Upload_gradients = snd (upload_gradients T c)"
| "exec T c Revert = revert c"
| "exec T c (Download gs) = state_after (download T c gs)"
| "exec T c (Train r v) = c\<lparr>store := (store c)[r := v]\<rparr>"

definition run :: "('t, 'r, 'k) torch \<Rightarrow> ('t, 'r, 'k) fedavg \<Rightarrow> 't call list \<Rightarrow> ('t, 'r, 'k) fedavg" where
  "run T c calls = foldl (exec T) c calls"

section \<open>Concrete inputs\<close>

text \<open>
  A tensor library over the reals with one-element tensors, and an SGD-style rule
  \<open>p - lr * g\<close> without buffers. Given a payload that is not a full state, its
  \<open>load_state_dict\<close> overwrites the parameters it finds an entry for and then raises;
  given a tensor sequence of another length, its \<open>step\<close> updates the parameters pair by
  pair as far as both sequences go and returns; given a state dict, its \<open>step\<close> raises.
\<close>

definition ex_torch :: "(real, real, unit) torch" where
  "ex_torch = \<lparr>t_sub = (-), t_div = (/), opt_rule = (\<lambda>a i p g. p - ad_lr a * g),
               opt_next = (\<lambda>a gs. ad_kwargs a), reshape_as = (\<lambda>n p. Some n),
               load_other = (\<lambda>names cur gs.
                 (True, case gs of
                          StateDict sd \<Rightarrow>
                            map (\<lambda>(n, v). case map_of sd n of Some x \<Rightarrow> x | None \<Rightarrow> v)
                              (zip names cur)
                        | TensorSeq ts \<Rightarrow> cur)),
               step_other = (\<lambda>a cur gs.
                 case gs of
                   StateDict sd \<Rightarrow> (True, cur, ad_kwargs a)
                 | TensorSeq grads \<Rightarrow>
                     (False, map (\<lambda>(p, g). p - ad_lr a * g) (zip cur grads), ad_kwargs a))\<rparr>"

text \<open>
  A model with the single parameter \<open>w\<close> (object 0, initial value 0), in a client as the
  constructor leaves it (snapshot in object 1), then after a first download of \<open>{w: 2}\<close>
  (snapshot in object 2), then after local training that moved \<open>w\<close> to 5.
\<close>

definition ex_sgd :: "(real, unit) adapter" where
  "ex_sgd = \<lparr>ad_kind = SGD, ad_parameters = [0], ad_lr = 1, ad_kwargs = ()\<rparr>"

definition ex_fresh :: "bool \<Rightarrow> (real, unit) adapter option option \<Rightarrow> (real, real, unit) fedavg" where
  "ex_fresh ssu opt = \<lparr>store = [0, 0], model_names = [''w''], model_parameters = [0], user_id = 0,
     lr = 1, send_gradient = True, server_side_update = ssu, device = ''cpu'',
     optimizer_for_gloal_grad = opt, prev_parameters = [1], initialized = False\<rparr>"

definition ex_loaded :: "bool \<Rightarrow> (real, unit) adapter option option \<Rightarrow> (real, real, unit) fedavg" where
  "ex_loaded ssu opt =
     (ex_fresh ssu opt)\<lparr>store := [2, 0, 2], prev_parameters := [2], initialized := True\<rparr>"

definition ex_ready :: "(real, real, unit) fedavg" where
  "ex_ready = (ex_loaded False (Some (Some ex_sgd)))\<lparr>store := [5, 0, 2]\<rparr>"

definition ex_none :: "(real, real, unit) fedavg" where
  "ex_none = (ex_loaded False (Some None))\<lparr>store := [5, 0, 2]\<rparr>"

text \<open>
  A message-passing client of the same model after training moved \<open>w\<close> from 2 to 5, with
  the new parameters \<open>[7]\<close> waiting on its channel.
\<close>

definition ex_mpi :: "(real, real) mpi_client" where
  "ex_mpi = \<lparr>mpi_store = [5, 2], mpi_comm = \<lparr>inbox = [(PARAMETERS_TAG, [7])], outbox = []\<rparr>,
     mpi_model_names = [''w''], mpi_model_parameters = [0], mpi_user_id = 0, mpi_lr = 2,
     mpi_device = ''cpu'', mpi_prev_parameters = [1], mpi_gradients = None\<rparr>"

text \<open>
  A numeric library over the integers, standing for a cryptosystem whose ciphertexts add
  like their plaintexts. The store holds the arrays \<open>[3]\<close>, \<open>[10, 20, 30]\<close> and
  \<open>[5]\<close>; instance 0 wraps the first, instance 1 the third, and the second belongs to
  a plaintext tensor.
\<close>

definition ex_numpy :: "(int, int list, unit) numpy" where
  "ex_numpy = \<lparr>el_add = (+), el_mul = (*), minus_one = - 1,
               np_array = (\<lambda>l. \<lparr>shape = [length l], data = l\<rparr>),
               decrypt2float = (\<lambda>sk x. x), zero = 0\<rparr>"

definition ex_pstore :: "int pstore" where
  "ex_pstore = \<lparr>arrays = [\<lparr>shape = [1], data = [3]\<rparr>, \<lparr>shape = [3], data = [10, 20, 30]\<rparr>,
                         \<lparr>shape = [1], data = [5]\<rparr>],
                instances = [0, 2]\<rparr>"

section \<open>Properties\<close>

lemma snapshot_loop_eq:
  "list_all (\<lambda>r. r < length st) ps \<Longrightarrow>
   snapshot_loop ps prev st =
     (prev @ map (\<lambda>i. length st + i) [0..<length ps], st @ map ((!) st) ps)"
proof (induction ps arbitrary: prev st)
  case Nil
  then show ?case by simp
next
  case (Cons p ps)
  have a: "list_all (\<lambda>r. r < length (st @ [st ! p])) ps"
    using Cons.prems by (auto simp: list_all_iff)
  have b: "map ((!) (st @ [st ! p])) ps = map ((!) st) ps"
    using Cons.prems by (auto simp: list_all_iff nth_append)
  show ?case
    using Cons.IH[OF a, of "prev @ [length st]"] b
    by (simp add: deepcopy_def map_upt_Suc del: upt_Suc)
qed

lemma revert_loop_store: "fst (revert_loop zs (st, l)) = st"
  by (induction zs arbitrary: l) auto

lemma revert_id: "revert self = self"
  by (simp add: revert_def revert_loop_store)

lemma gradients_loop_eq:
  "list_all (\<lambda>(p, q). p < length st \<and> q < length st) zs \<Longrightarrow>
   gradients_loop T lr0 zs (acc, st) =
     (acc @ map (\<lambda>i. length st + i) [0..<length zs],
      st @ map (\<lambda>(param, prev_param). t_div T (t_sub T (st ! prev_param) (st ! param)) lr0) zs)"
proof (induction zs arbitrary: acc st)
  case Nil
  then show ?case by simp
next
  case (Cons z zs)
  obtain p q where z: "z = (p, q)" by (cases z)
  let ?v = "t_div T (t_sub T (st ! q) (st ! p)) lr0"
  have a: "list_all (\<lambda>(p, q). p < length (st @ [?v]) \<and> q < length (st @ [?v])) zs"
    using Cons.prems by (auto simp: list_all_iff)
  have b: "map (\<lambda>(param, prev_param).
              t_div T (t_sub T ((st @ [?v]) ! prev_param) ((st @ [?v]) ! param)) lr0) zs
         = map (\<lambda>(param, prev_param). t_div T (t_sub T (st ! prev_param) (st ! param)) lr0) zs"
    using Cons.prems by (auto simp: list_all_iff nth_append)
  show ?case
    using Cons.IH[OF a, of "acc @ [length st]"] b z
    by (simp add: map_upt_Suc del: upt_Suc)
qed

lemma write_params_length: "length (write_params zs st) = length st"
  by (induction zs arbitrary: st) auto

lemma load_loop_length: "load_loop sd zs st = Some st' \<Longrightarrow> length st' = length st"
proof (induction zs arbitrary: st)
  case Nil
  then show ?case by simp
next
  case (Cons z zs)
  then show ?case by (cases z) (auto split: option.splits)
qed

lemma step_loop_length: "length (step_loop T a i zs st) = length st"
  by (induction zs arbitrary: i st) auto

lemma load_full_length: "load_full c gs = Some st' \<Longrightarrow> length st' = length (store c)"
  by (auto simp: load_full_def split: payload.splits if_splits dest: load_loop_length)

lemma load_state_dict_Raise:
  "load_state_dict T c gs = Raise e s \<Longrightarrow>
     e = ShapeMismatch \<and> (\<exists>st'. s = c\<lparr>store := st'\<rparr> \<and> length st' = length (store c))"
  by (auto simp: load_state_dict_def Let_def write_params_length
      split: option.splits prod.splits if_splits)

lemma step_Raise:
  "step T a c gs = Raise e s \<Longrightarrow>
     e = ShapeMismatch \<and> (\<exists>st'. s = c\<lparr>store := st'\<rparr> \<and> length st' = length (store c))"
  by (auto simp: step_def Let_def write_params_length
      split: option.splits prod.splits if_splits)

lemma download_Raise:
  "download T c gs = Raise e s \<Longrightarrow>
     \<exists>st'. s = c\<lparr>store := st'\<rparr> \<and> length st' = length (store c)"
proof (cases "server_side_update c \<or> \<not> initialized c")
  case True
  assume "download T c gs = Raise e s"
  with True have "load_state_dict T c gs = Raise e s"
    by (auto simp: download_def Let_def split: outcome.splits prod.splits)
  then show ?thesis by (auto dest: load_state_dict_Raise)
next
  case False
  assume d: "download T c gs = Raise e s"
  show ?thesis
  proof (cases "\<exists>a. optimizer_for_gloal_grad c = Some (Some a)")
    case True
    then obtain a where a: "optimizer_for_gloal_grad c = Some (Some a)" ..
    with d False have "step T a c gs = Raise e s"
      by (auto simp: download_def revert_id Let_def split: outcome.splits prod.splits)
    then show ?thesis by (auto dest: step_Raise)
  next
    case F: False
    with d False have "s = c"
      by (auto simp: download_def revert_id Let_def split: option.splits)
    then have "s = c\<lparr>store := store c\<rparr>" by simp
    then show ?thesis by blast
  qed
qed

lemma load_state_dict_Return:
  "load_state_dict T c gs = Return c' \<Longrightarrow>
     \<exists>st'. c' = c\<lparr>store := st'\<rparr> \<and> length st' = length (store c)"
  by (auto simp: load_state_dict_def Let_def write_params_length
      split: option.splits prod.splits if_splits dest: load_full_length)

lemma step_Return:
  "step T a c gs = Return c' \<Longrightarrow>
     \<exists>st' k. c' = c\<lparr>store := st', optimizer_for_gloal_grad := Some (Some (a\<lparr>ad_kwargs := k\<rparr>))\<rparr>
        \<and> length st' = length (store c)"
  by (auto simp: step_def Let_def write_params_length step_loop_length
      split: option.splits prod.splits if_splits)

lemma download_Return_frame:
  assumes "download T c gs = Return c'"
  shows "initialized c' \<and> server_side_update c' = server_side_update c
       \<and> model_parameters c' = model_parameters c \<and> model_names c' = model_names c
       \<and> lr c' = lr c
       \<and> (optimizer_for_gloal_grad c = Some None \<longrightarrow> optimizer_for_gloal_grad c' = Some None)
       \<and> (\<forall>a. optimizer_for_gloal_grad c = Some (Some a) \<longrightarrow>
            (\<exists>a'. optimizer_for_gloal_grad c' = Some (Some a')
                  \<and> ad_parameters a' = ad_parameters a))"
  using assms
  by (auto simp: download_def revert_id Let_def
      split: if_splits option.splits outcome.splits prod.splits
      dest!: load_state_dict_Return step_Return)

lemma init_Return:
  assumes "FedAvgClient_init st names params uid lr0 sg ot ssu kw dev = Return c0"
  shows "server_side_update c0 = ssu \<and> model_parameters c0 = params \<and> model_names c0 = names
       \<and> \<not> initialized c0 \<and> lr c0 = lr0 \<and> send_gradient c0 = sg
       \<and> (\<not> ssu \<longrightarrow> ot = ''none'' \<longrightarrow> optimizer_for_gloal_grad c0 = Some None)
       \<and> (\<not> ssu \<longrightarrow> ot \<noteq> ''none'' \<longrightarrow>
            (\<exists>a. optimizer_for_gloal_grad c0 = Some (Some a) \<and> ad_parameters a = params))
       \<and> (ssu \<longrightarrow> optimizer_for_gloal_grad c0 = None)"
  using assms
  by (auto simp: FedAvgClient_init_def setup_optimizer_for_global_grad_def Let_def
      split: if_splits outcome.splits prod.splits)

lemma upload_gradients_frame: "\<exists>st'. snd (upload_gradients T c) = c\<lparr>store := st'\<rparr>"
  by (auto simp: upload_gradients_def split: prod.splits)

lemma upload_frame: "\<exists>st'. snd (upload T c) = c\<lparr>store := st'\<rparr>"
proof (cases "send_gradient c")
  case True
  obtain g c' where u: "upload_gradients T c = (g, c')" by (cases "upload_gradients T c")
  with upload_gradients_frame[of T c] True show ?thesis by (auto simp: upload_def)
next
  case False
  have "c = c\<lparr>store := store c\<rparr>" by simp
  with False show ?thesis by (auto simp: upload_def intro: exI[of _ "store c"])
qed

lemma exec_frame:
  "server_side_update (exec T c x) = server_side_update c
   \<and> model_parameters (exec T c x) = model_parameters c
   \<and> (initialized c \<longrightarrow> initialized (exec T c x))
   \<and> (optimizer_for_gloal_grad c = Some None \<longrightarrow> optimizer_for_gloal_grad (exec T c x) = Some None)
   \<and> ((\<exists>a. optimizer_for_gloal_grad c = Some (Some a) \<and> ad_parameters a = ps) \<longrightarrow>
        (\<exists>a. optimizer_for_gloal_grad (exec T c x) = Some (Some a) \<and> ad_parameters a = ps))"
proof (cases x)
  case (Download gs)
  show ?thesis
  proof (cases "download T c gs")
    case (Return c')
    from download_Return_frame[OF this] show ?thesis
      using Download Return by auto
  next
    case (Raise e s)
    from download_Raise[OF this] show ?thesis
      using Download Raise by auto
  qed
next
  case Upload
  with upload_frame[of T c] show ?thesis by auto
next
  case Upload_gradients
  with upload_gradients_frame[of T c] show ?thesis by auto
qed (simp_all add: revert_id)

lemma run_frame:
  "server_side_update (run T c xs) = server_side_update c
   \<and> model_parameters (run T c xs) = model_parameters c
   \<and> (initialized c \<longrightarrow> initialized (run T c xs))
   \<and> (optimizer_for_gloal_grad c = Some None \<longrightarrow> optimizer_for_gloal_grad (run T c xs) = Some None)
   \<and> ((\<exists>a. optimizer_for_gloal_grad c = Some (Some a) \<and> ad_parameters a = ps) \<longrightarrow>
        (\<exists>a. optimizer_for_gloal_grad (run T c xs) = Some (Some a) \<and> ad_parameters a = ps))"
proof (induction xs arbitrary: c)
  case Nil
  show ?case by (simp add: run_def)
next
  case (Cons x xs)
  have r: "run T c (x # xs) = run T (exec T c x) xs" by (simp add: run_def)
  show ?case
    unfolding r using Cons.IH[of "exec T c x"] exec_frame[of T c x ps] by auto
qed

lemma download_none: 
  "\<not> server_side_update c \<Longrightarrow> initialized c \<Longrightarrow> optimizer_for_gloal_grad c = Some None
   \<Longrightarrow> download T c gs = Raise AttributeError c"
  by (simp add: download_def revert_id)

lemma snapshot_loop_total: "\<exists>prev' st'. snapshot_loop ps prev st = (prev', st')"
  by (cases "snapshot_loop ps prev st") auto

lemma download_adapter:
  assumes "\<not> server_side_update c" "initialized c" "optimizer_for_gloal_grad c = Some (Some a)"
  shows "download T c gs \<noteq> Raise AttributeError s"
    and "length g = length (ad_parameters a) \<Longrightarrow> \<exists>c2. download T c (TensorSeq g) = Return c2"
proof -
  show "download T c gs \<noteq> Raise AttributeError s"
  proof
    assume "download T c gs = Raise AttributeError s"
    with assms have "step T a c gs = Raise AttributeError s"
      by (auto simp: download_def revert_id Let_def split: outcome.splits prod.splits)
    from step_Raise[OF this] show False by simp
  qed
  show "\<exists>c2. download T c (TensorSeq g) = Return c2" if "length g = length (ad_parameters a)"
    using assms that
    by (auto simp: download_def revert_id step_def step_aligned_def Let_def split: prod.splits)
qed

text \<open>
  C10. A client constructed with \<open>server_side_update=False\<close> and
  \<open>optimizer_type_for_global_grad="none"\<close>: after its first download has returned,
  every later download, whatever calls and local training came in between and whatever
  the payload, raises \<open>AttributeError\<close> on the \<open>None\<close> adapter and leaves the client as it
  was. With \<open>"sgd"\<close> or \<open>"adam"\<close> (the only other values the constructor accepts) no
  download raises \<open>AttributeError\<close>, and a download of a tensor sequence aligned with the
  parameters returns.
\<close>

theorem none_adapter_download_raises:
  assumes init: "FedAvgClient_init st names params uid lr0 sg ot False kw dev = Return c0"
      and first: "download T c0 gs0 = Return c1"
  shows "(ot = ''none'' \<longrightarrow>
            download T (run T c1 calls) gs = Raise AttributeError (run T c1 calls))
       \<and> (ot \<noteq> ''none'' \<longrightarrow>
            (\<forall>s. download T (run T c1 calls) gs \<noteq> Raise AttributeError s)
          \<and> (\<forall>g. length g = length params \<longrightarrow>
                (\<exists>c2. download T (run T c1 calls) (TensorSeq g) = Return c2)))"
proof -
  note i = init_Return[OF init]
  note d = download_Return_frame[OF first]
  have ssu: "\<not> server_side_update (run T c1 calls)" and ini: "initialized (run T c1 calls)"
    using i d run_frame[of T c1 calls] by auto
  show ?thesis
  proof (intro conjI impI)
    assume "ot = ''none''"
    then have "optimizer_for_gloal_grad c1 = Some None" using i d by simp
    then have "optimizer_for_gloal_grad (run T c1 calls) = Some None"
      using run_frame[of T c1 calls] by simp
    then show "download T (run T c1 calls) gs = Raise AttributeError (run T c1 calls)"
      using ssu ini by (rule download_none[rotated 2])
  next
    assume "ot \<noteq> ''none''"
    then obtain a where "optimizer_for_gloal_grad c1 = Some (Some a)" "ad_parameters a = params"
      using i d by auto
    then obtain a' where a': "optimizer_for_gloal_grad (run T c1 calls) = Some (Some a')"
        "ad_parameters a' = params"
      using run_frame[of T c1 calls params] by auto
    show "\<forall>s. download T (run T c1 calls) gs \<noteq> Raise AttributeError s"
      using download_adapter(1)[OF ssu ini a'(1)] by simp
    show "\<forall>g. length g = length params \<longrightarrow>
                (\<exists>c2. download T (run T c1 calls) (TensorSeq g) = Return c2)"
      using download_adapter(2)[OF ssu ini a'(1)] a'(2) by simp
  qed
qed

lemmas ex_defs = ex_torch_def ex_sgd_def ex_fresh_def ex_loaded_def ex_ready_def ex_none_def

lemma ex_init:
  "FedAvgClient_init [0::real] [''w''] [0] 0 (1::real) True ''none'' False () ''cpu''
     = Return (ex_fresh False (Some None))"
  "FedAvgClient_init [0::real] [''w''] [0] 0 (1::real) True ''sgd'' False () ''cpu''
     = Return (ex_fresh False (Some (Some ex_sgd)))"
  "FedAvgClient_init [0::real] [''w''] [0] 0 (1::real) True ''sgd'' True () ''cpu''
     = Return (ex_fresh True None)"
  by (simp_all add: FedAvgClient_init_def setup_optimizer_for_global_grad_def deepcopy_def ex_defs)

lemma ex_first:
  "download ex_torch (ex_fresh ssu opt) (StateDict [(''w'', 2)]) = Return (ex_loaded ssu opt)"
  by (simp add: download_def load_state_dict_def load_full_def deepcopy_def ex_defs)

lemma ex_train:
  "run ex_torch (ex_loaded False (Some None)) [Train 0 5] = ex_none"
  "run ex_torch (ex_loaded False (Some (Some ex_sgd))) [Train 0 5] = ex_ready"
  by (simp_all add: run_def ex_defs)

text \<open>
  The theorem at the one-parameter model: constructed with \<open>"none"\<close>, respectively
  \<open>"sgd"\<close>, loaded with \<open>{w: 2}\<close>, trained to 5, then asked to download \<open>[1]\<close>.
\<close>

theorem none_adapter_download_raises_witness:
  "download ex_torch ex_none (TensorSeq [1]) = Raise AttributeError ex_none
   \<and> (\<exists>c2. download ex_torch ex_ready (TensorSeq [1]) = Return c2)"
  using none_adapter_download_raises[OF ex_init(1) ex_first, of "[Train 0 5]" "TensorSeq [1]"]
        none_adapter_download_raises[OF ex_init(2) ex_first, of "[Train 0 5]" "TensorSeq [1]"]
  by (simp add: ex_train)

text \<open>
  C6. With \<open>server_side_update=False\<close> and an optimizer type other than \<open>"sgd"\<close>,
  \<open>"adam"\<close>, \<open>"none"\<close>, the constructor raises \<open>NotImplementedError\<close> (the spec's
  \<open>UnsupportedOptimizer\<close>) with a message that names the three allowed values; at the
  raise the store and the model's parameters are as the caller passed them. The
  constructor raises in no other case, and with \<open>server_side_update=True\<close> it returns
  for every optimizer type.
\<close>

theorem unsupported_optimizer_rejected:
  "(\<not> ssu \<and> ot \<notin> {''sgd'', ''adam'', ''none''} \<longrightarrow>
      (\<exists>s. FedAvgClient_init st names params uid lr0 sg ot ssu kw dev =
             Raise (NotImplementedError
                (ot @ '' is not supported. You can specify `sgd`, `adam`, or `none`.'')) s
           \<and> store s = st \<and> model_parameters s = params))
   \<and> ((\<exists>e s. FedAvgClient_init st names params uid lr0 sg ot ssu kw dev = Raise e s)
        \<longleftrightarrow> \<not> ssu \<and> ot \<notin> {''sgd'', ''adam'', ''none''})
   \<and> (ssu \<longrightarrow> (\<exists>c. FedAvgClient_init st names params uid lr0 sg ot ssu kw dev = Return c))"
  by (auto simp: FedAvgClient_init_def setup_optimizer_for_global_grad_def Let_def
      split: prod.splits)

theorem unsupported_optimizer_rejected_witness:
  "(\<exists>s. FedAvgClient_init [0::real] [''w''] [0] 0 (1::real) True ''bogus'' False () ''cpu'' =
         Raise (NotImplementedError
           ''bogus is not supported. You can specify `sgd`, `adam`, or `none`.'') s
        \<and> store s = [0])
   \<and> (\<exists>c. FedAvgClient_init [0::real] [''w''] [0] 0 (1::real) True ''bogus'' True () ''cpu''
           = Return c)"
  using unsupported_optimizer_rejected[of False "''bogus''" "[0::real]" "[''w'']" "[0]" 0 "1::real" True "()" "''cpu''"]
        unsupported_optimizer_rejected[of True "''bogus''" "[0::real]" "[''w'']" "[0]" 0 "1::real" True "()" "''cpu''"]
  by auto

text \<open>
  C1. The claim is that a download in client-applied-update mode first assigns every
  parameter back to its snapshot value and then applies the adapter's step. In the code
  \<open>revert\<close> assigns to its loop variable only (\<open>revert_id\<close>), so the step is applied to
  the trained parameters. At \<open>ex_ready\<close> the snapshot of \<open>w\<close> is 2 and training moved
  \<open>w\<close> to 5: after \<open>revert\<close> the parameter is still 5, and downloading the update \<open>[1]\<close>
  with the rule \<open>p - lr * g\<close>, \<open>lr = 1\<close>, leaves \<open>w = 4\<close> where revert-then-step gives 1.
\<close>

theorem revert_keeps_trained_parameters:
  "map ((!) (store ex_ready)) (prev_parameters ex_ready) = [2]
   \<and> map ((!) (store (revert ex_ready))) (model_parameters ex_ready) = [5]
   \<and> download ex_torch ex_ready (TensorSeq [1]) =
       Return (ex_ready\<lparr>store := [4, 0, 2, 4], prev_parameters := [3]\<rparr>)"
  by (simp add: download_def revert_def step_def step_aligned_def deepcopy_def ex_defs)

lemma load_loop_Some:
  assumes "load_loop sd zs st = Some st'" "distinct (map snd zs)"
      "list_all (\<lambda>r. r < length st) (map snd zs)"
  shows "length st' = length st
       \<and> (\<forall>(n, r) \<in> set zs. map_of sd n = Some (st' ! r))
       \<and> (\<forall>r. r \<notin> snd ` set zs \<longrightarrow> st' ! r = st ! r)"
  using assms
proof (induction zs arbitrary: st)
  case Nil
  then show ?case by simp
next
  case (Cons z zs)
  obtain n r where z: "z = (n, r)" by (cases z)
  from Cons.prems(1) z obtain v where v: "map_of sd n = Some v"
    and rest: "load_loop sd zs (st[r := v]) = Some st'"
    by (auto split: option.splits)
  have d: "distinct (map snd zs)" and rn: "r \<notin> snd ` set zs" and rl: "r < length st"
    using Cons.prems(2,3) z by auto
  have l: "list_all (\<lambda>q. q < length (st[r := v])) (map snd zs)"
    using Cons.prems(3) by simp
  note ih = Cons.IH[OF rest d l]
  have "st' ! r = v" using ih rn rl by simp
  then show ?case using ih v z by auto
qed

lemma load_loop_total:
  "list_all (\<lambda>n. n \<in> fst ` set sd) (map fst zs) \<Longrightarrow> \<exists>st'. load_loop sd zs st = Some st'"
proof (induction zs arbitrary: st)
  case Nil
  then show ?case by simp
next
  case (Cons z zs)
  obtain n r where z: "z = (n, r)" by (cases z)
  from Cons.prems z have "n \<in> fst ` set sd" by simp
  then obtain v where "map_of sd n = Some v"
    by (metis domD dom_map_of_conv_image_fst)
  then show ?case using Cons z by simp
qed

text \<open>What a download that returns has done to the store and to the snapshot.\<close>

lemma download_Return_snapshot:
  assumes ret: "download T c gs = Return c'"
      and refs: "list_all (\<lambda>r. r < length (store c)) (model_parameters c)"
  shows "\<exists>st2. length st2 = length (store c)
           \<and> (server_side_update c \<or> \<not> initialized c \<longrightarrow>
                 load_state_dict T c gs = Return (c\<lparr>store := st2\<rparr>))
           \<and> store c' = st2 @ map ((!) st2) (model_parameters c)
           \<and> prev_parameters c' = map (\<lambda>i. length st2 + i) [0..<length (model_parameters c)]"
proof (cases "server_side_update c \<or> \<not> initialized c")
  case True
  with ret obtain c2 where l: "load_state_dict T c gs = Return c2"
    by (auto simp: download_def split: outcome.splits)
  from load_state_dict_Return[OF l] obtain st2 where
    s: "c2 = c\<lparr>store := st2\<rparr>" and len: "length st2 = length (store c)" by auto
  have refs2: "list_all (\<lambda>r. r < length st2) (model_parameters c)" using refs len by simp
  show ?thesis
    using ret True l s len snapshot_loop_eq[OF refs2, of "[]"]
    by (cases "initialized c") (auto simp: download_def Let_def intro!: exI[of _ st2])
next
  case False
  with ret obtain a c2 where o: "optimizer_for_gloal_grad c = Some (Some a)"
    and st: "step T a c gs = Return c2"
    by (auto simp: download_def revert_id Let_def split: outcome.splits option.splits)
  from step_Return[OF st] obtain st2 k where
    c2: "c2 = c\<lparr>store := st2,
                optimizer_for_gloal_grad := Some (Some (a\<lparr>ad_kwargs := k\<rparr>))\<rparr>"
    and len: "length st2 = length (store c)" by auto
  have refs2: "list_all (\<lambda>r. r < length st2) (model_parameters c)" using refs len by simp
  show ?thesis
    using ret False o st c2 len snapshot_loop_eq[OF refs2, of "[]"]
    by (cases "initialized c") (auto simp: download_def revert_id Let_def intro!: exI[of _ st2])
qed

lemma download_load_values:
  assumes path: "server_side_update c \<or> \<not> initialized c"
      and wf: "wf_model (store c) (model_names c) (model_parameters c)"
      and len: "length sd = length (model_parameters c)"
      and keys: "list_all (\<lambda>n. n \<in> fst ` set sd) (model_names c)"
  shows "\<exists>c'. download T c (StateDict sd) = Return c' \<and> initialized c'
           \<and> model_names c' = model_names c \<and> model_parameters c' = model_parameters c
           \<and> server_side_update c' = server_side_update c
           \<and> (\<forall>i<length (model_parameters c).
                 map_of sd (model_names c ! i) = Some (store c' ! (model_parameters c ! i)))"
proof -
  let ?zs = "zip (model_names c) (model_parameters c)"
  have ln: "length (model_names c) = length (model_parameters c)"
    and dp: "distinct (model_parameters c)"
    and refs: "list_all (\<lambda>r. r < length (store c)) (model_parameters c)"
    using wf by (auto simp: wf_model_def)
  have "list_all (\<lambda>n. n \<in> fst ` set sd) (map fst ?zs)" using keys ln by simp
  from load_loop_total[OF this] obtain st' where ll: "load_loop sd ?zs (store c) = Some st'"
    by blast
  have lsd: "load_state_dict T c (StateDict sd) = Return (c\<lparr>store := st'\<rparr>)"
    using ll len by (simp add: load_state_dict_def load_full_def)
  obtain prev st3 where sn: "snapshot_loop (model_parameters c) [] st' = (prev, st3)"
    by (cases "snapshot_loop (model_parameters c) [] st'") auto
  have "\<exists>c'. download T c (StateDict sd) = Return c'"
    using path lsd sn by (cases "initialized c") (auto simp: download_def Let_def)
  then obtain c' where ret: "download T c (StateDict sd) = Return c'" ..
  from download_Return_snapshot[OF ret refs] path lsd obtain st2 where
    st2: "c\<lparr>store := st2\<rparr> = c\<lparr>store := st'\<rparr>"
      "store c' = st2 @ map ((!) st2) (model_parameters c)" by auto
  from st2(1) have "store (c\<lparr>store := st2\<rparr>) = store (c\<lparr>store := st'\<rparr>)" by (rule arg_cong)
  then have eq: "st2 = st'" by simp
  have sz: "map snd ?zs = model_parameters c" using ln by simp
  from load_loop_Some[OF ll] dp refs sz
  have vals: "length st' = length (store c)"
       "\<forall>(n, r) \<in> set ?zs. map_of sd n = Some (st' ! r)" by auto
  have "map_of sd (model_names c ! i) = Some (store c' ! (model_parameters c ! i))"
    if i: "i < length (model_parameters c)" for i
  proof -
    have "(model_names c ! i, model_parameters c ! i) \<in> set ?zs"
      using i ln by (auto simp: set_zip)
    with vals(2) have "map_of sd (model_names c ! i) = Some (st' ! (model_parameters c ! i))"
      by auto
    moreover have "model_parameters c ! i < length st'"
      using refs i vals(1) by (simp add: list_all_length)
    ultimately show ?thesis using st2(2) eq by (simp add: nth_append)
  qed
  with ret download_Return_frame[OF ret] show ?thesis by auto
qed

lemma init_store:
  assumes "FedAvgClient_init st names params uid lr0 sg ot ssu kw dev = Return c0"
      and "list_all (\<lambda>r. r < length st) params"
  shows "store c0 = st @ map ((!) st) params"
    and "prev_parameters c0 = map (\<lambda>i. length st + i) [0..<length params]"
  using assms snapshot_loop_eq[OF assms(2), of "[]"]
  by (auto simp: FedAvgClient_init_def setup_optimizer_for_global_grad_def Let_def
      split: if_splits outcome.splits prod.splits)

text \<open>
  C3. A freshly constructed client is not initialized. Whatever \<open>server_side_update\<close> is,
  its first download of a state dict with an entry for every parameter returns, leaves
  every parameter with the value the state dict gives for its name, and sets
  \<open>initialized\<close>; after that no sequence of calls and training steps clears it.
\<close>

theorem first_download_loads_state:
  assumes init: "FedAvgClient_init st names params uid lr0 sg ot ssu kw dev = Return c0"
      and wf: "wf_model st names params"
      and len: "length sd = length params"
      and keys: "list_all (\<lambda>n. n \<in> fst ` set sd) names"
  shows "\<not> initialized c0
       \<and> (\<exists>c1. download T c0 (StateDict sd) = Return c1 \<and> initialized c1
              \<and> (\<forall>i<length params. map_of sd (names ! i) = Some (store c1 ! (params ! i)))
              \<and> (\<forall>calls. initialized (run T c1 calls)))"
proof -
  note i = init_Return[OF init]
  have refs: "list_all (\<lambda>r. r < length st) params" using wf by (simp add: wf_model_def)
  have wf0: "wf_model (store c0) (model_names c0) (model_parameters c0)"
    using wf i init_store(1)[OF init refs] by (auto simp: wf_model_def list_all_iff)
  have "\<not> initialized c0" using i by simp
  moreover from download_load_values[OF _ wf0, of sd T] i len keys
  obtain c1 where c1: "download T c0 (StateDict sd) = Return c1" "initialized c1"
      "\<forall>i<length params. map_of sd (names ! i) = Some (store c1 ! (params ! i))"
    by auto
  moreover have "\<forall>calls. initialized (run T c1 calls)"
    using c1(2) run_frame[of T c1] by simp
  ultimately show ?thesis by blast
qed

theorem first_download_loads_state_witness:
  "\<not> initialized (ex_fresh False (Some (Some ex_sgd)))
   \<and> (\<exists>c1. download ex_torch (ex_fresh False (Some (Some ex_sgd))) (StateDict [(''w'', 2)]) = Return c1
           \<and> initialized c1 \<and> store c1 ! 0 = 2
           \<and> initialized (run ex_torch c1 [Train 0 5, Download (TensorSeq [1])]))"
proof -
  have wf: "wf_model [0::real] [''w''] [0]" by (simp add: wf_model_def)
  have len: "length [(''w'', 2::real)] = length [0::nat]" by simp
  have keys: "list_all (\<lambda>n. n \<in> fst ` set [(''w'', 2::real)]) [''w'']" by simp
  from first_download_loads_state[OF ex_init(2) wf len keys, of ex_torch]
  show ?thesis by auto
qed

text \<open>
  C7. In server-applied-update mode, for a state dict \<open>S\<close> whose keys are exactly the
  model's parameter names, \<open>download(S)\<close> returns and \<open>upload_parameters()\<close> then returns
  the mapping \<open>S\<close>: the same value under every name, and the very same list of entries
  when \<open>S\<close> lists the names in the model's order.
\<close>

theorem download_upload_parameters_roundtrip:
  assumes ssu: "server_side_update c"
      and wf: "wf_model (store c) (model_names c) (model_parameters c)"
      and keys: "set (map fst S) = set (model_names c)"
      and dist: "distinct (map fst S)"
  shows "\<exists>c'. download T c (StateDict S) = Return c'
           \<and> map_of (upload_parameters c') = map_of S
           \<and> (map fst S = model_names c \<longrightarrow> upload_parameters c' = S)"
proof -
  let ?ns = "model_names c" and ?ps = "model_parameters c"
  have ln: "length ?ns = length ?ps" and dn: "distinct ?ns"
    using wf by (auto simp: wf_model_def)
  have "length (map fst S) = card (set (map fst S))"
    using dist by (rule distinct_card[symmetric])
  also have "\<dots> = card (set ?ns)" using keys by simp
  also have "\<dots> = length ?ns" using dn by (rule distinct_card)
  finally have len: "length S = length ?ps" using ln by simp
  have k: "list_all (\<lambda>n. n \<in> fst ` set S) ?ns" using keys by (auto simp: list_all_iff)
  from download_load_values[OF _ wf len k, of T] ssu
  obtain c' where ret: "download T c (StateDict S) = Return c'"
    and nm: "model_names c' = ?ns" and pm: "model_parameters c' = ?ps"
    and vals: "\<forall>i<length ?ps. map_of S (?ns ! i) = Some (store c' ! (?ps ! i))"
    by auto
  let ?vs = "map (\<lambda>r. store c' ! r) ?ps"
  have up: "upload_parameters c' = zip ?ns ?vs"
    by (simp add: upload_parameters_def state_dict_def nm pm)
  have m: "map_of (zip ?ns ?vs) n = map_of S n" for n
  proof (cases "n \<in> set ?ns")
    case True
    then obtain i where i: "i < length ?ns" "n = ?ns ! i" by (auto simp: in_set_conv_nth)
    have "map_of (zip ?ns ?vs) (?ns ! i) = Some (?vs ! i)"
      using map_of_zip_nth[of ?ns ?vs i] ln dn i(1) by simp
    then show ?thesis using vals i ln by simp
  next
    case False
    then have "map_of (zip ?ns ?vs) n = None" using ln by (simp add: map_of_zip_is_None)
    moreover have "map_of S n = None" using False keys by (simp add: map_of_eq_None_iff)
    ultimately show ?thesis by simp
  qed
  have ord: "zip ?ns ?vs = S" if o: "map fst S = ?ns"
  proof -
    have "?vs ! i = snd (S ! i)" if i: "i < length S" for i
    proof -
      have "S ! i \<in> set S" using i by simp
      then have "map_of S (fst (S ! i)) = Some (snd (S ! i))" using dist by simp
      moreover have "fst (S ! i) = ?ns ! i" using o i by (metis nth_map)
      ultimately show ?thesis using vals i len by simp
    qed
    then have "?vs = map snd S" using len by (auto intro: nth_equalityI)
    then show ?thesis using o by (metis zip_map_fst_snd)
  qed
  show ?thesis using ret up m ord by auto
qed

theorem download_upload_parameters_roundtrip_witness:
  "\<exists>c'. download ex_torch (ex_loaded True None) (StateDict [(''w'', 7)]) = Return c'
        \<and> upload_parameters c' = [(''w'', 7)]"
proof -
  have wf: "wf_model (store (ex_loaded True None)) (model_names (ex_loaded True None))
              (model_parameters (ex_loaded True None))"
    by (simp add: wf_model_def ex_defs)
  have ssu: "server_side_update (ex_loaded True None)" by (simp add: ex_defs)
  have keys: "set (map fst [(''w'', 7::real)]) = set (model_names (ex_loaded True None))"
    by (simp add: ex_defs)
  have dist: "distinct (map fst [(''w'', 7::real)])" by simp
  have o: "map fst [(''w'', 7::real)] = model_names (ex_loaded True None)" by (simp add: ex_defs)
  from download_upload_parameters_roundtrip[OF ssu wf keys dist, of ex_torch] o
  show ?thesis by auto
qed




text \<open>
  C4, as amended. When the snapshot has one entry per parameter, the gradient upload of
  either client computes one new tensor per parameter, tensor \<open>i\<close> holding
  \<open>(snapshot\<^sub>i - current\<^sub>i) / lr\<close> in the tensor library's arithmetic, and writes to no
  object that existed: every parameter and every snapshot entry keeps its value, and the
  client's lists of parameters and snapshot entries are the same. \<open>upload_gradients\<close> of
  the single-process client returns the list of these tensors (and \<open>upload\<close> their
  values when \<open>send_gradient\<close> is set). \<open>upload_gradient\<close> of the message-passing client
  returns \<open>None\<close>: it keeps the list in \<open>self.gradients\<close> and sends the values to the
  destination, tagged \<open>GRADIENTS_TAG\<close>.
\<close>

theorem gradient_upload_values:
  "(length (prev_parameters c) = length (model_parameters c)
      \<and> list_all (\<lambda>r. r < length (store c)) (model_parameters c @ prev_parameters c)
      \<and> upload_gradients T c = (g, c') \<longrightarrow>
        length g = length (model_parameters c)
      \<and> (\<forall>i<length (model_parameters c).
            g ! i = length (store c) + i
          \<and> store c' ! (g ! i) =
              t_div T (t_sub T (store c ! (prev_parameters c ! i))
                               (store c ! (model_parameters c ! i))) (lr c))
      \<and> take (length (store c)) (store c') = store c
      \<and> c' = c\<lparr>store := store c'\<rparr>
      \<and> (send_gradient c \<longrightarrow> upload T c = (TensorSeq (map ((!) (store c')) g), c')))
   \<and> (length (mpi_prev_parameters m) = length (mpi_model_parameters m)
      \<and> list_all (\<lambda>r. r < length (mpi_store m)) (mpi_model_parameters m @ mpi_prev_parameters m)
      \<and> upload_gradient T m dest = (ret, m') \<longrightarrow>
        ret = None
      \<and> (\<exists>g. mpi_gradients m' = Some g \<and> length g = length (mpi_model_parameters m)
            \<and> outbox (mpi_comm m') =
                outbox (mpi_comm m) @ [(map ((!) (mpi_store m')) g, dest, GRADIENTS_TAG)]
            \<and> (\<forall>i<length (mpi_model_parameters m).
                  g ! i = length (mpi_store m) + i
                \<and> mpi_store m' ! (g ! i) =
                    t_div T (t_sub T (mpi_store m ! (mpi_prev_parameters m ! i))
                                     (mpi_store m ! (mpi_model_parameters m ! i))) (mpi_lr m)))
      \<and> take (length (mpi_store m)) (mpi_store m') = mpi_store m
      \<and> inbox (mpi_comm m') = inbox (mpi_comm m)
      \<and> mpi_model_parameters m' = mpi_model_parameters m
      \<and> mpi_prev_parameters m' = mpi_prev_parameters m)"
proof (intro conjI impI)
  assume a: "length (prev_parameters c) = length (model_parameters c)
      \<and> list_all (\<lambda>r. r < length (store c)) (model_parameters c @ prev_parameters c)
      \<and> upload_gradients T c = (g, c')"
  let ?zs = "zip (model_parameters c) (prev_parameters c)"
  let ?f = "\<lambda>(param, prev_param). t_div T (t_sub T (store c ! prev_param) (store c ! param)) (lr c)"
  have v: "list_all (\<lambda>(p, q). p < length (store c) \<and> q < length (store c)) ?zs"
    using a by (auto simp: list_all_iff dest: set_zip_leftD set_zip_rightD)
  have n: "length ?zs = length (model_parameters c)" using a by simp
  from gradients_loop_eq[OF v, of T "lr c" "[]"] a n
  have g: "g = map (\<lambda>i. length (store c) + i) [0..<length (model_parameters c)]"
    and c': "c' = c\<lparr>store := store c @ map ?f ?zs\<rparr>"
    by (auto simp: upload_gradients_def)
  show "length g = length (model_parameters c)" using g by simp
  show "take (length (store c)) (store c') = store c" using c' by simp
  show "c' = c\<lparr>store := store c'\<rparr>" using c' by simp
  show "\<forall>i<length (model_parameters c).
            g ! i = length (store c) + i
          \<and> store c' ! (g ! i) =
              t_div T (t_sub T (store c ! (prev_parameters c ! i))
                               (store c ! (model_parameters c ! i))) (lr c)"
    using g c' n a by (auto simp: nth_append)
  show "upload T c = (TensorSeq (map ((!) (store c')) g), c')" if "send_gradient c"
    using that a by (simp add: upload_def)
next
  assume a: "length (mpi_prev_parameters m) = length (mpi_model_parameters m)
      \<and> list_all (\<lambda>r. r < length (mpi_store m)) (mpi_model_parameters m @ mpi_prev_parameters m)
      \<and> upload_gradient T m dest = (ret, m')"
  let ?zs = "zip (mpi_model_parameters m) (mpi_prev_parameters m)"
  let ?f = "\<lambda>(param, prev_param).
              t_div T (t_sub T (mpi_store m ! prev_param) (mpi_store m ! param)) (mpi_lr m)"
  let ?g = "map (\<lambda>i. length (mpi_store m) + i) [0..<length (mpi_model_parameters m)]"
  let ?st = "mpi_store m @ map ?f ?zs"
  have v: "list_all (\<lambda>(p, q). p < length (mpi_store m) \<and> q < length (mpi_store m)) ?zs"
    using a by (auto simp: list_all_iff dest: set_zip_leftD set_zip_rightD)
  have n: "length ?zs = length (mpi_model_parameters m)" using a by simp
  from gradients_loop_eq[OF v, of T "mpi_lr m" "[]"] a n
  have r: "ret = None"
    and m': "m' = m\<lparr>mpi_store := ?st, mpi_gradients := Some ?g,
                    mpi_comm := comm_send (mpi_comm m) (map ((!) ?st) ?g) dest GRADIENTS_TAG\<rparr>"
    by (auto simp: upload_gradient_def)
  show "ret = None" by (rule r)
  show "take (length (mpi_store m)) (mpi_store m') = mpi_store m" using m' by simp
  show "inbox (mpi_comm m') = inbox (mpi_comm m)" using m' by (simp add: comm_send_def)
  show "mpi_model_parameters m' = mpi_model_parameters m" using m' by simp
  show "mpi_prev_parameters m' = mpi_prev_parameters m" using m' by simp
  have "mpi_gradients m' = Some ?g \<and> length ?g = length (mpi_model_parameters m)
            \<and> outbox (mpi_comm m') =
                outbox (mpi_comm m) @ [(map ((!) (mpi_store m')) ?g, dest, GRADIENTS_TAG)]
            \<and> (\<forall>i<length (mpi_model_parameters m).
                  ?g ! i = length (mpi_store m) + i
                \<and> mpi_store m' ! (?g ! i) =
                    t_div T (t_sub T (mpi_store m ! (mpi_prev_parameters m ! i))
                                     (mpi_store m ! (mpi_model_parameters m ! i))) (mpi_lr m))"
    using m' n a by (auto simp: comm_send_def nth_append)
  then show "\<exists>g. mpi_gradients m' = Some g \<and> length g = length (mpi_model_parameters m)
            \<and> outbox (mpi_comm m') =
                outbox (mpi_comm m) @ [(map ((!) (mpi_store m')) g, dest, GRADIENTS_TAG)]
            \<and> (\<forall>i<length (mpi_model_parameters m).
                  g ! i = length (mpi_store m) + i
                \<and> mpi_store m' ! (g ! i) =
                    t_div T (t_sub T (mpi_store m ! (mpi_prev_parameters m ! i))
                                     (mpi_store m ! (mpi_model_parameters m ! i))) (mpi_lr m))"
    by blast
qed

text \<open>
  At the trained clients: the single-process client returns the new tensor 3 holding
  \<open>(2 - 5) / 1\<close>; the message-passing client returns \<open>None\<close> and sends \<open>[(2 - 5) / 2]\<close>.
\<close>

theorem gradient_upload_values_witness:
  "upload_gradients ex_torch ex_ready = ([3], ex_ready\<lparr>store := [5, 0, 2, - 3]\<rparr>)
   \<and> upload ex_torch ex_ready = (TensorSeq [- 3], ex_ready\<lparr>store := [5, 0, 2, - 3]\<rparr>)
   \<and> fst (upload_gradient ex_torch ex_mpi 0) = None
   \<and> outbox (mpi_comm (snd (upload_gradient ex_torch ex_mpi 0))) = [([- 3 / 2], 0, GRADIENTS_TAG)]
   \<and> mpi_gradients (snd (upload_gradient ex_torch ex_mpi 0)) = Some [2]
   \<and> take 2 (mpi_store (snd (upload_gradient ex_torch ex_mpi 0))) = [5, 2]"
proof -
  have u: "upload_gradients ex_torch ex_ready = ([3], ex_ready\<lparr>store := [5, 0, 2, - 3]\<rparr>)"
    by (simp add: upload_gradients_def ex_defs)
  have h1: "length (prev_parameters ex_ready) = length (model_parameters ex_ready)
      \<and> list_all (\<lambda>r. r < length (store ex_ready))
           (model_parameters ex_ready @ prev_parameters ex_ready)"
    "send_gradient ex_ready" "map ((!) [5, 0, 2, - 3::real]) [3] = [- 3]"
    by (simp_all add: ex_defs)
  obtain ret m' where m: "upload_gradient ex_torch ex_mpi 0 = (ret, m')"
    by (cases "upload_gradient ex_torch ex_mpi 0")
  have h2: "length (mpi_prev_parameters ex_mpi) = length (mpi_model_parameters ex_mpi)
      \<and> list_all (\<lambda>r. r < length (mpi_store ex_mpi))
           (mpi_model_parameters ex_mpi @ mpi_prev_parameters ex_mpi)"
    "length (mpi_store ex_mpi) = 2"
    by (simp_all add: ex_mpi_def)
  have h3: "outbox (mpi_comm m') = [([- 3 / 2], 0, GRADIENTS_TAG)]"
    "mpi_gradients m' = Some [2]"
    using m by (auto simp: upload_gradient_def comm_send_def ex_mpi_def ex_torch_def)
  note t = gradient_upload_values[where c = ex_ready and g = "[3]" and T = ex_torch
      and c' = "ex_ready\<lparr>store := [5, 0, 2, - 3]\<rparr>" and m = ex_mpi and dest = 0
      and ret = ret and m' = m']
  have A: "length (prev_parameters ex_ready) = length (model_parameters ex_ready)
      \<and> list_all (\<lambda>r. r < length (store ex_ready))
           (model_parameters ex_ready @ prev_parameters ex_ready)
      \<and> upload_gradients ex_torch ex_ready = ([3], ex_ready\<lparr>store := [5, 0, 2, - 3]\<rparr>)"
    using h1(1) u by blast
  have B: "length (mpi_prev_parameters ex_mpi) = length (mpi_model_parameters ex_mpi)
      \<and> list_all (\<lambda>r. r < length (mpi_store ex_mpi))
           (mpi_model_parameters ex_mpi @ mpi_prev_parameters ex_mpi)
      \<and> upload_gradient ex_torch ex_mpi 0 = (ret, m')"
    using h2(1) m by blast
  from t A h1(2) have up: "upload ex_torch ex_ready =
      (TensorSeq (map ((!) (store (ex_ready\<lparr>store := [5, 0, 2, - 3]\<rparr>))) [3]),
       ex_ready\<lparr>store := [5, 0, 2, - 3]\<rparr>)" by blast
  from t B have r: "ret = None"
    and tk: "take (length (mpi_store ex_mpi)) (mpi_store m') = mpi_store ex_mpi" by blast+
  have s2: "mpi_store ex_mpi = [5, 2]" by (simp add: ex_mpi_def)
  from up have up': "upload ex_torch ex_ready =
      (TensorSeq [- 3], ex_ready\<lparr>store := [5, 0, 2, - 3]\<rparr>)" by simp
  from tk s2 have tk': "take 2 (mpi_store m') = [5, 2]" by (simp add: numeral_2_eq_2)
  show ?thesis using u up' r tk' m h3 by simp
qed

text \<open>
  The claim as stated, that the upload of both clients returns the gradients, fails for
  the message-passing client: its snapshot is aligned with its parameters, and
  \<open>upload_gradient\<close> returns \<open>None\<close>, as does \<open>upload\<close>.
\<close>

theorem gradient_upload_counterexample:
  "length (mpi_prev_parameters ex_mpi) = length (mpi_model_parameters ex_mpi)
   \<and> fst (upload_gradient ex_torch ex_mpi 0) = None
   \<and> fst (mpi_upload ex_torch ex_mpi) = None"
  by (simp add: upload_gradient_def mpi_upload_def ex_mpi_def split: prod.splits)

lemma assign_loop_frame:
  "assign_loop T zs st = out \<Longrightarrow>
     (\<exists>st'. (out = Return st' \<or> (\<exists>e. out = Raise e st'))
        \<and> length st' = length st \<and> (\<forall>r. r \<notin> fst ` set zs \<longrightarrow> st' ! r = st ! r))"
proof (induction zs arbitrary: st)
  case Nil
  then show ?case by auto
next
  case (Cons z zs)
  obtain p v where z: "z = (p, v)" by (cases z)
  show ?case
  proof (cases "reshape_as T v (st ! p)")
    case None
    then show ?thesis using Cons.prems z by auto
  next
    case (Some w)
    then have "assign_loop T zs (st[p := w]) = out" using Cons.prems z by simp
    from Cons.IH[OF this] show ?thesis using z by auto
  qed
qed

lemma mpi_download_frame:
  assumes d: "mpi_download T m = Some out"
  shows "mpi_prev_parameters (state_after out) = mpi_prev_parameters m
       \<and> mpi_model_parameters (state_after out) = mpi_model_parameters m
       \<and> length (mpi_store (state_after out)) = length (mpi_store m)
       \<and> (\<forall>r. r \<notin> set (mpi_model_parameters m) \<longrightarrow>
              mpi_store (state_after out) ! r = mpi_store m ! r)"
proof -
  from d obtain new c' where rc: "comm_recv (mpi_comm m) PARAMETERS_TAG = Some (new, c')"
    by (auto simp: mpi_download_def split: option.splits)
  let ?zs = "zip (mpi_model_parameters m) new"
  obtain st' where a: "assign_loop T ?zs (mpi_store m) = Return st'
        \<or> (\<exists>e. assign_loop T ?zs (mpi_store m) = Raise e st')"
      and l: "length st' = length (mpi_store m)"
      and f: "\<forall>r. r \<notin> fst ` set ?zs \<longrightarrow> st' ! r = mpi_store m ! r"
    using assign_loop_frame[OF refl, of T ?zs "mpi_store m"] by blast
  have sub: "fst ` set ?zs \<subseteq> set (mpi_model_parameters m)"
    by (auto dest: set_zip_leftD)
  from a d rc have "state_after out = m\<lparr>mpi_comm := c', mpi_store := st'\<rparr>"
    by (auto simp: mpi_download_def Let_def)
  then show ?thesis using l f sub by auto
qed

text \<open>
  C5. A \<open>FedAvgClient.download\<close> that returns leaves as snapshot one new object per
  parameter: objects that did not exist before the call (so none of them is a parameter
  or an entry of the old snapshot), pairwise distinct, each holding the value its
  parameter has at the end of the call. \<open>MPIFedAVGClient.download\<close>, whether it returns
  or raises, leaves \<open>prev_parameters\<close> the same list of the same objects, and, the
  snapshot objects being no parameter objects, with the values they had.
\<close>

theorem download_snapshots:
  "(download T c gs = Return c' \<and> list_all (\<lambda>r. r < length (store c)) (model_parameters c) \<longrightarrow>
      length (prev_parameters c') = length (model_parameters c')
      \<and> distinct (prev_parameters c')
      \<and> (\<forall>i<length (model_parameters c').
            length (store c) \<le> prev_parameters c' ! i
          \<and> prev_parameters c' ! i < length (store c')
          \<and> store c' ! (prev_parameters c' ! i) = store c' ! (model_parameters c' ! i)))
   \<and> (mpi_download T m = Some out
        \<and> list_all (\<lambda>r. r \<notin> set (mpi_model_parameters m)) (mpi_prev_parameters m) \<longrightarrow>
      mpi_prev_parameters (state_after out) = mpi_prev_parameters m
      \<and> map ((!) (mpi_store (state_after out))) (mpi_prev_parameters m)
          = map ((!) (mpi_store m)) (mpi_prev_parameters m))"
proof (intro conjI impI)
  assume a: "download T c gs = Return c' \<and> list_all (\<lambda>r. r < length (store c)) (model_parameters c)"
  then have ret: "download T c gs = Return c'"
    and refs: "list_all (\<lambda>r. r < length (store c)) (model_parameters c)" by auto
  from download_Return_snapshot[OF ret refs] obtain st2 where
    l: "length st2 = length (store c)"
    and s: "store c' = st2 @ map ((!) st2) (model_parameters c)"
    and p: "prev_parameters c' = map (\<lambda>i. length st2 + i) [0..<length (model_parameters c)]"
    by blast
  have mp: "model_parameters c' = model_parameters c"
    using download_Return_frame[OF ret] by simp
  show "length (prev_parameters c') = length (model_parameters c')"
    using p mp by simp
  show "distinct (prev_parameters c')"
    unfolding p by (simp add: distinct_map inj_on_def)
  show "\<forall>i<length (model_parameters c').
            length (store c) \<le> prev_parameters c' ! i
          \<and> prev_parameters c' ! i < length (store c')
          \<and> store c' ! (prev_parameters c' ! i) = store c' ! (model_parameters c' ! i)"
  proof (intro allI impI)
    fix i assume i: "i < length (model_parameters c')"
    then have i': "i < length (model_parameters c)" using mp by simp
    have r: "model_parameters c ! i < length st2"
      using refs i' l by (simp add: list_all_length)
    have q: "prev_parameters c' ! i = length st2 + i" using p i' by simp
    show "length (store c) \<le> prev_parameters c' ! i
          \<and> prev_parameters c' ! i < length (store c')
          \<and> store c' ! (prev_parameters c' ! i) = store c' ! (model_parameters c' ! i)"
      using q r i' l s mp by (simp add: nth_append)
  qed
next
  assume a: "mpi_download T m = Some out
        \<and> list_all (\<lambda>r. r \<notin> set (mpi_model_parameters m)) (mpi_prev_parameters m)"
  note f = mpi_download_frame[OF conjunct1[OF a]]
  show "mpi_prev_parameters (state_after out) = mpi_prev_parameters m" using f by simp
  show "map ((!) (mpi_store (state_after out))) (mpi_prev_parameters m)
          = map ((!) (mpi_store m)) (mpi_prev_parameters m)"
    using f a by (auto simp: list_all_iff)
qed

text \<open>
  At the concrete clients: the single-process client's new snapshot is the new object 3
  with the parameter's new value 4; the message-passing client loads 7 into its parameter
  and keeps the snapshot object 1 with the old value 2.
\<close>

theorem download_snapshots_witness:
  "download ex_torch ex_ready (TensorSeq [1]) =
     Return (ex_ready\<lparr>store := [4, 0, 2, 4], prev_parameters := [3]\<rparr>)
   \<and> mpi_download ex_torch ex_mpi =
       Some (Return (ex_mpi\<lparr>mpi_comm := \<lparr>inbox = [], outbox = []\<rparr>, mpi_store := [7, 2]\<rparr>))
   \<and> prev_parameters (ex_ready\<lparr>store := [4, 0, 2, 4], prev_parameters := [3]\<rparr>) ! 0 = 3
   \<and> mpi_prev_parameters
        (state_after (Return (ex_mpi\<lparr>mpi_comm := \<lparr>inbox = [], outbox = []\<rparr>, mpi_store := [7, 2]\<rparr>)))
       = [1]"
proof -
  have d: "download ex_torch ex_ready (TensorSeq [1]) =
     Return (ex_ready\<lparr>store := [4, 0, 2, 4], prev_parameters := [3]\<rparr>)"
    by (simp add: download_def revert_def step_def step_aligned_def deepcopy_def ex_defs)
  have r: "list_all (\<lambda>r. r < length (store ex_ready)) (model_parameters ex_ready)"
    by (simp add: ex_defs)
  have m: "mpi_download ex_torch ex_mpi =
       Some (Return (ex_mpi\<lparr>mpi_comm := \<lparr>inbox = [], outbox = []\<rparr>, mpi_store := [7, 2]\<rparr>))"
    by (simp add: mpi_download_def comm_recv_def ex_mpi_def ex_torch_def)
  have n: "list_all (\<lambda>r. r \<notin> set (mpi_model_parameters ex_mpi)) (mpi_prev_parameters ex_mpi)"
    by (simp add: ex_mpi_def)
  have v: "length (model_parameters (ex_ready\<lparr>store := [4, 0, 2, 4], prev_parameters := [3]\<rparr>)) = 1"
    "mpi_prev_parameters ex_mpi = [1]" "length (store ex_ready) = 3"
    by (simp_all add: ex_defs ex_mpi_def)
  from download_snapshots[of ex_torch ex_ready "TensorSeq [1]"
      "ex_ready\<lparr>store := [4, 0, 2, 4], prev_parameters := [3]\<rparr>" ex_mpi
      "Return (ex_mpi\<lparr>mpi_comm := \<lparr>inbox = [], outbox = []\<rparr>, mpi_store := [7, 2]\<rparr>)"]
    d r m n v
  show ?thesis by simp
qed

lemma broadcast_rev_same: "broadcast_rev xs xs = Some xs"
  by (induction xs) auto

lemma broadcast_rev_Nil: "broadcast_rev xs [] = Some xs"
  by (cases xs) auto

lemma broadcast_shapes_same: "broadcast_shapes s s = Some s"
  by (simp add: broadcast_shapes_def broadcast_rev_same)

lemma broadcast_shapes_Nil: "broadcast_shapes s [] = Some s"
  by (simp add: broadcast_shapes_def broadcast_rev_Nil)

lemma np_binop_shape:
  "np_binop f x y = Some r \<Longrightarrow> broadcast_shapes (shape x) (shape y) = Some (shape r)"
  by (auto simp: np_binop_def split: option.splits)

lemma wrap_Return:
  "wrap N w r = Return (p, w') \<Longrightarrow>
     \<exists>x. r = Some x \<and> shape x \<noteq> [] \<and> p = length (instances w)
        \<and> arrays w' = arrays w @ [x] \<and> instances w' = instances w @ [length (arrays w)]"
  by (auto simp: wrap_def np_result_def PaillierTensor_init_def split: option.splits if_splits)

lemma wrap_Raise: "wrap N w r = Raise e w'' \<Longrightarrow> w'' = w"
  by (auto simp: wrap_def np_result_def PaillierTensor_init_def split: option.splits if_splits)

lemma result_array_wrap:
  "result_array (wrap N w r) =
     (case r of None \<Rightarrow> Inl ValueError
      | Some x \<Rightarrow> if shape x = [] then Inl TypeError else Inr x)"
  by (auto simp: wrap_def np_result_def PaillierTensor_init_def np_of_def numpy_def
      split: option.splits)

lemma np_of_grow:
  assumes "wf_pstore w" "a < length (instances w)"
  shows "np_of (w\<lparr>arrays := arrays w @ xs, instances := instances w @ ys\<rparr>) a = np_of w a"
    and "np_of (w\<lparr>arrays := arrays w @ xs\<rparr>) a = np_of w a"
  using assms by (auto simp: np_of_def numpy_def wf_pstore_def list_all_length nth_append)

lemma np_of_new:
  "np_of (w\<lparr>arrays := arrays w @ [x], instances := instances w @ [length (arrays w)]\<rparr>)
     (length (instances w)) = x"
  by (simp add: np_of_def numpy_def)

text \<open>
  C8. For every encrypted array \<open>a\<close> and every operand \<open>b\<close>, \<open>sub(a, b)\<close> produces what
  \<open>add(a, b')\<close> produces, \<open>b'\<close> being \<open>b\<close> scaled by \<open>-1\<close>: the same array, or the same
  error. Only the elements' \<open>+\<close> and their multiplication by \<open>-1\<close> are used.
\<close>

theorem sub_is_add_of_scaled:
  assumes "wf_pstore w" and "a < length (instances w)" and "wf_operand w b"
  shows "result_array (sub N w a b) =
         result_array (case scaled_by_minus_one N w b of (b', w') \<Rightarrow> add N w' a b')"
proof (cases b)
  case (PyInt x)
  then show ?thesis by (simp add: sub_def add_def scaled_by_minus_one_def)
next
  case (PyFloat x)
  then show ?thesis by (simp add: sub_def add_def scaled_by_minus_one_def)
next
  case (TorchTensor t)
  then show ?thesis
    using assms
    by (simp add: sub_def add_def scaled_by_minus_one_def result_array_wrap np_of_grow)
next
  case (PaillierT q)
  then show ?thesis
    using assms
    by (simp add: sub_def add_def scaled_by_minus_one_def result_array_wrap np_of_grow np_of_new)
next
  case (Unsupported n)
  then show ?thesis by (simp add: sub_def add_def scaled_by_minus_one_def)
qed

lemmas paillier_eval = wrap_def np_result_def PaillierTensor_init_def np_binop_def np_of_def
  numpy_def np_scalar_left_def np_scalar_right_def broadcast_shapes_def broadcast_to_def
  broadcast_index_def ex_numpy_def ex_pstore_def

text \<open>
  The theorem at \<open>sub(Enc(5), Enc(3))\<close>: both sides give the array \<open>[2]\<close>.
\<close>

theorem sub_is_add_of_scaled_witness:
  "result_array (sub ex_numpy ex_pstore 1 (PaillierT 0)) = Inr \<lparr>shape = [1], data = [2]\<rparr>
   \<and> result_array (case scaled_by_minus_one ex_numpy ex_pstore (PaillierT 0) of
                      (b', w') \<Rightarrow> add ex_numpy w' 1 b') = Inr \<lparr>shape = [1], data = [2]\<rparr>"
proof -
  have 1: "wf_pstore ex_pstore" by (simp add: wf_pstore_def ex_pstore_def)
  have 2: "1 < length (instances ex_pstore)" by (simp add: ex_pstore_def)
  have 3: "wf_operand ex_pstore (PaillierT 0)" by (simp add: ex_pstore_def)
  have "result_array (sub ex_numpy ex_pstore 1 (PaillierT 0)) = Inr \<lparr>shape = [1], data = [2]\<rparr>"
    by (simp add: sub_def paillier_eval)
  then show ?thesis using sub_is_add_of_scaled[OF 1 2 3, of ex_numpy] by simp
qed

lemma wrap_binop_Return:
  assumes "wrap N w (np_binop g x y) = Return (p, w')"
  shows "p = length (instances w)
       \<and> (\<exists>r. arrays w' = arrays w @ [r] \<and> instances w' = instances w @ [length (arrays w)]
              \<and> broadcast_shapes (shape x) (shape y) = Some (shape r))"
proof -
  from wrap_Return[OF assms] obtain r where r: "np_binop g x y = Some r"
      "p = length (instances w)" "arrays w' = arrays w @ [r]"
      "instances w' = instances w @ [length (arrays w)]" by auto
  from np_binop_shape[OF r(1)] r(2-4) show ?thesis by simp
qed

lemma wrap_scalar_Return:
  assumes "wrap N w (Some (np_scalar_right g x v)) = Return (p, w')"
  shows "p = length (instances w)
       \<and> (\<exists>r. arrays w' = arrays w @ [r] \<and> instances w' = instances w @ [length (arrays w)]
              \<and> broadcast_shapes (shape x) [] = Some (shape r))"
  using wrap_Return[OF assms] by (auto simp: np_scalar_right_def broadcast_shapes_Nil)

lemma shape_np_scalar_left: "shape (np_scalar_left g v x) = shape x"
  by (simp add: np_scalar_left_def)

lemma op_Return:
  assumes "f \<in> {add, sub, mul}" "f N w a b = Return (p, w')"
  shows "p = length (instances w)
       \<and> (\<exists>r. arrays w' = arrays w @ [r] \<and> instances w' = instances w @ [length (arrays w)]
              \<and> broadcast_shapes (shape (np_of w a)) (operand_shape w b) = Some (shape r))"
proof (cases b)
  case (PyInt x)
  then show ?thesis using assms
    by (auto simp: add_def sub_def mul_def dest!: wrap_scalar_Return)
next
  case (PyFloat x)
  then show ?thesis using assms
    by (auto simp: add_def sub_def mul_def dest!: wrap_scalar_Return)
next
  case (TorchTensor t)
  then show ?thesis using assms
    by (auto simp: add_def sub_def mul_def shape_np_scalar_left dest!: wrap_binop_Return)
next
  case (PaillierT q)
  then show ?thesis using assms
    by (auto simp: add_def sub_def mul_def shape_np_scalar_left dest!: wrap_binop_Return)
next
  case (Unsupported n)
  then show ?thesis using assms by (auto simp: add_def sub_def mul_def)
qed

lemma op_Raise:
  assumes "f \<in> {add, sub, mul}" "f N w a b = Raise e w''"
  shows "w'' = w"
  using assms by (cases b) (auto simp: add_def sub_def mul_def dest: wrap_Raise)

lemma dunder_eq:
  "dunder_add N w a b = add N w a b" "dunder_sub N w a b = sub N w a b"
  "dunder_mul N w a b = mul N w a b"
  by (cases b; simp add: dunder_add_def dunder_sub_def dunder_mul_def torch_call_def
      torch_function_def overloaded_types_def)+

text \<open>
  C9, as amended. Each of \<open>add\<close>, \<open>sub\<close>, \<open>mul\<close> and of the operators \<open>+\<close>, \<open>-\<close>,
  \<open>*\<close>, when it returns, returns an instance that did not exist before, holding an array
  that did not exist before; every array and every instance that existed is unchanged.
  The shape of the new array is the broadcast of the two operands' shapes: the first
  operand's shape when the second is a scalar or has that same shape. A call that raises
  changes nothing. The constructor, too, only adds objects.
\<close>

theorem arithmetic_returns_new_instance:
  assumes "f \<in> {add, sub, mul, dunder_add, dunder_sub, dunder_mul}"
  shows "(f N w a b = Return (p, w') \<longrightarrow>
            p = length (instances w)
          \<and> (\<exists>r. arrays w' = arrays w @ [r] \<and> instances w' = instances w @ [length (arrays w)]
                \<and> np_of w' p = r
                \<and> broadcast_shapes (shape (np_of w a)) (operand_shape w b) = Some (shape r)
                \<and> (operand_shape w b = [] \<or> operand_shape w b = shape (np_of w a)
                      \<longrightarrow> shape r = shape (np_of w a))))
       \<and> (f N w a b = Raise e w'' \<longrightarrow> w'' = w)
       \<and> (PaillierTensor_init N w arg = Return (p, w') \<longrightarrow>
            p = length (instances w) \<and> (\<exists>xs r. arrays w' = arrays w @ xs
                                          \<and> instances w' = instances w @ [r]))
       \<and> (PaillierTensor_init N w arg = Raise e w'' \<longrightarrow> w'' = w)"
proof -
  have f: "f N w a b = add N w a b \<or> f N w a b = sub N w a b \<or> f N w a b = mul N w a b"
    using assms by (auto simp: dunder_eq)
  have ret: "p = length (instances w)
          \<and> (\<exists>r. arrays w' = arrays w @ [r] \<and> instances w' = instances w @ [length (arrays w)]
                \<and> broadcast_shapes (shape (np_of w a)) (operand_shape w b) = Some (shape r))"
    if "f N w a b = Return (p, w')"
    using f that op_Return[of add N w a b p w'] op_Return[of mul N w a b p w']
      op_Return[of sub N w a b p w'] by auto
  have 1: "f N w a b = Return (p, w') \<longrightarrow>
            p = length (instances w)
          \<and> (\<exists>r. arrays w' = arrays w @ [r] \<and> instances w' = instances w @ [length (arrays w)]
                \<and> np_of w' p = r
                \<and> broadcast_shapes (shape (np_of w a)) (operand_shape w b) = Some (shape r)
                \<and> (operand_shape w b = [] \<or> operand_shape w b = shape (np_of w a)
                      \<longrightarrow> shape r = shape (np_of w a)))"
  proof
    assume "f N w a b = Return (p, w')"
    from ret[OF this] obtain r where r: "p = length (instances w)" "arrays w' = arrays w @ [r]"
        "instances w' = instances w @ [length (arrays w)]"
        "broadcast_shapes (shape (np_of w a)) (operand_shape w b) = Some (shape r)" by blast
    have n: "np_of w' p = r" using r(1-3) by (simp add: np_of_def numpy_def)
    have s: "shape r = shape (np_of w a)"
      if "operand_shape w b = [] \<or> operand_shape w b = shape (np_of w a)"
      using that r(4) by (auto simp: broadcast_shapes_Nil broadcast_shapes_same)
    show "p = length (instances w)
          \<and> (\<exists>r. arrays w' = arrays w @ [r] \<and> instances w' = instances w @ [length (arrays w)]
                \<and> np_of w' p = r
                \<and> broadcast_shapes (shape (np_of w a)) (operand_shape w b) = Some (shape r)
                \<and> (operand_shape w b = [] \<or> operand_shape w b = shape (np_of w a)
                      \<longrightarrow> shape r = shape (np_of w a)))"
      using r n s by blast
  qed
  have 2: "f N w a b = Raise e w'' \<longrightarrow> w'' = w"
    using f op_Raise[of add N w a b e w''] op_Raise[of sub N w a b e w'']
      op_Raise[of mul N w a b e w''] by auto
  have 3: "PaillierTensor_init N w arg = Return (p, w') \<longrightarrow>
            p = length (instances w) \<and> (\<exists>xs r. arrays w' = arrays w @ xs
                                          \<and> instances w' = instances w @ [r])"
    by (cases arg) (auto simp: PaillierTensor_init_def)
  have 4: "PaillierTensor_init N w arg = Raise e w'' \<longrightarrow> w'' = w"
    by (cases arg) (auto simp: PaillierTensor_init_def)
  show ?thesis using 1 2 3 4 by blast
qed

text \<open>
  The claim as stated, that the result has the shape of the first operand, fails under
  broadcasting: the one-element encrypted array \<open>[3]\<close> plus the plaintext tensor
  \<open>[10, 20, 30]\<close> is a new instance of shape \<open>[3]\<close>.
\<close>

theorem same_shape_counterexample:
  "shape (np_of ex_pstore 0) = [1]
   \<and> add ex_numpy ex_pstore 0 (TorchTensor 1) =
       Return (2, ex_pstore\<lparr>arrays := arrays ex_pstore @ [\<lparr>shape = [3], data = [13, 23, 33]\<rparr>],
                            instances := instances ex_pstore @ [3]\<rparr>)
   \<and> shape (np_of (ex_pstore\<lparr>arrays := arrays ex_pstore @ [\<lparr>shape = [3], data = [13, 23, 33]\<rparr>],
                            instances := instances ex_pstore @ [3]\<rparr>) 2) = [3]"
  by (simp add: add_def paillier_eval upt_conv_Cons)

text \<open>
  At \<open>mul(Enc(3), 2)\<close>: the new instance 2 wraps the new array \<open>[6]\<close>, of the shape of the
  first operand, and the three arrays and two instances that existed are still there.
\<close>

theorem arithmetic_returns_new_instance_witness:
  "mul ex_numpy ex_pstore 0 (PyInt 2) =
     Return (2, ex_pstore\<lparr>arrays := arrays ex_pstore @ [\<lparr>shape = [1], data = [6]\<rparr>],
                          instances := instances ex_pstore @ [3]\<rparr>)
   \<and> shape (np_of (ex_pstore\<lparr>arrays := arrays ex_pstore @ [\<lparr>shape = [1], data = [6]\<rparr>],
                             instances := instances ex_pstore @ [3]\<rparr>) 2)
       = shape (np_of ex_pstore 0)"
proof -
  let ?W = "ex_pstore\<lparr>arrays := arrays ex_pstore @ [\<lparr>shape = [1], data = [6]\<rparr>],
                      instances := instances ex_pstore @ [3]\<rparr>"
  have m: "mul ex_numpy ex_pstore 0 (PyInt 2) = Return (2, ?W)"
    by (simp add: mul_def paillier_eval)
  have f: "mul \<in> {add, sub, mul, dunder_add, dunder_sub, dunder_mul}" by simp
  have o: "operand_shape ex_pstore (PyInt (2::int)) = []" by simp
  from arithmetic_returns_new_instance[OF f, of ex_numpy ex_pstore 0 "PyInt 2" 2 ?W] m o
  obtain r where "np_of ?W 2 = r" "shape r = shape (np_of ex_pstore 0)" by blast
  then have "shape (np_of ?W 2) = shape (np_of ex_pstore 0)" by blast
  with m show ?thesis by blast
qed

text \<open>The constructor of the message-passing client puts its snapshot in new objects.\<close>

lemma mpi_init_snapshot_fresh:
  assumes "list_all (\<lambda>r. r < length st) params"
  shows "list_all (\<lambda>r. r \<notin> set params)
           (mpi_prev_parameters (MPIFedAVGClient_init c st names params uid lr0 dev))"
  using assms snapshot_loop_eq[OF assms, of "[]"]
  by (auto simp: MPIFedAVGClient_init_def list_all_iff)

end
